theory Spec2Isabelle
  imports Complex_Main
begin

section \<open>The ConsensusID tool (src/topp/ConsensusID.cpp)\<close>

text \<open>
  A shallow embedding of \<^verbatim>\<open>TOPPConsensusID\<close>: the option table of
  \<^verbatim>\<open>registerOptionsAndFlags_\<close>, \<^verbatim>\<open>setProteinIdentifications_\<close> and
  \<^verbatim>\<open>main_\<close>. The classes the tool only calls (the file readers and writers, the
  feature linker, the consensus scorers, the clock, the version string, the option store
  of the tool's base class) are not part of the file; they appear as the fields of an
  environment record, or as functions marked as modelled from the specification.
  The protected members of the class end in an underscore in the source
  (\<^verbatim>\<open>main_\<close>, \<^verbatim>\<open>getIntOption_\<close>); a constant cannot, so the underscore is dropped
  and \<^verbatim>\<open>main_\<close> is \<open>TOPPConsensusID_main\<close>.
\<close>

subsection \<open>Values\<close>

text \<open>
  A C++ \<^verbatim>\<open>double\<close>. The tool never computes with one: it stores, copies and tests
  for not-a-number (\<^verbatim>\<open>hasRT\<close>, \<^verbatim>\<open>hasMZ\<close>), so a number is carried as a real.
\<close>

datatype double = NaN | Val real

datatype DateTime = NullDateTime | At nat

datatype ExitCodes = EXECUTION_OK | INCOMPATIBLE_INPUT_DATA

datatype FileType = IDXML | FEATUREXML | CONSENSUSXML | UNKNOWN | OtherType string

datatype ParamValue = StringValue string | DoubleValue double | IntValue int | SizeValue nat

text \<open>
  A \<^verbatim>\<open>Param\<close> (the class is not in the source file): named values, in insertion
  order; \<^verbatim>\<open>setValue\<close> overwrites the entry of a name or appends one.
\<close>

type_synonym Param = "(string \<times> ParamValue) list"

fun setValue :: "string \<Rightarrow> ParamValue \<Rightarrow> Param \<Rightarrow> Param" where
  "setValue k v [] = [(k, v)]"
| "setValue k v ((k', v') # ps) =
     (if k' = k then (k', v) # ps else (k', v') # setValue k v ps)"

definition getValue :: "Param \<Rightarrow> string \<Rightarrow> ParamValue option" where
  "getValue ps k = map_of ps k"

text \<open>\<^verbatim>\<open>Param::copy(prefix, remove_prefix)\<close>: the entries under a prefix.\<close>

definition copy :: "string \<Rightarrow> bool \<Rightarrow> Param \<Rightarrow> Param" where
  "copy prefix remove_prefix ps =
     map (\<lambda>(k, v). (if remove_prefix then drop (length prefix) k else k, v))
       (filter (\<lambda>(k, v). take (length prefix) k = prefix) ps)"

subsection \<open>Identification records\<close>

record PeptideHit =
  sequence :: string
  score :: double
  rank :: nat

record PeptideIdentification =
  pep_identifier :: string
  pep_rt :: double
  pep_mz :: double
  score_type :: string
  hits :: "PeptideHit list"

text \<open>
  Modelled from the spec: \<^verbatim>\<open>PeptideIdentification::hasRT\<close> and \<^verbatim>\<open>hasMZ\<close>
  (the class is not in the source file). An identification event may lack RT or m/z; a
  coordinate that is lacking is held as not-a-number, which is how a \<^verbatim>\<open>double\<close>
  member without a value is stored.
\<close>

definition hasRT :: "PeptideIdentification \<Rightarrow> bool" where
  "hasRT p = (pep_rt p \<noteq> NaN)"

definition hasMZ :: "PeptideIdentification \<Rightarrow> bool" where
  "hasMZ p = (pep_mz p \<noteq> NaN)"

record ProteinIdentification =
  prot_identifier :: string
  search_engine :: string
  search_engine_version :: string
  date_time :: DateTime

definition new_ProteinIdentification :: ProteinIdentification where
  "new_ProteinIdentification =
     \<lparr>prot_identifier = [], search_engine = [], search_engine_version = [],
      date_time = NullDateTime\<rparr>"

record Feature =
  f_rt :: double
  f_mz :: double
  f_charge :: int
  f_peptide_ids :: "PeptideIdentification list"

definition new_Feature :: Feature where
  "new_Feature = \<lparr>f_rt = Val 0, f_mz = Val 0, f_charge = 0, f_peptide_ids = []\<rparr>"

record FeatureMap =
  fm_features :: "Feature list"
  fm_protein_ids :: "ProteinIdentification list"

definition new_FeatureMap :: FeatureMap where
  "new_FeatureMap = \<lparr>fm_features = [], fm_protein_ids = []\<rparr>"

record ConsensusFeature =
  cf_rt :: double
  cf_mz :: double
  cf_peptide_ids :: "PeptideIdentification list"

record ConsensusMap =
  cm_features :: "ConsensusFeature list"
  cm_protein_ids :: "ProteinIdentification list"

text \<open>What a file holds, once parsed.\<close>

datatype Document =
  IdXMLDoc "ProteinIdentification list" "PeptideIdentification list"
| FeatureXMLDoc FeatureMap
| ConsensusXMLDoc ConsensusMap

subsection \<open>Effects\<close>

datatype Exception =
  FileNotFound string
| ParseError string
| ElementNotFound string
| WrongParameterType string
| InvalidParameter string
| External string

datatype Algorithm = PEPMatrix | PEPIons | Best | Average | Ranks

text \<open>
  The calls the tool makes to its collaborators, in order. \<open>LogFatalError\<close> carries the
  run identifier the message names.
\<close>

datatype Event =
  LogFatalError string
| LinkerGroup Param "FeatureMap list"
| ConsensusSetParameters Algorithm Param
| ConsensusApply "PeptideIdentification list"
| DateTimeNow
| Store string Document

record World =
  files :: "string \<rightharpoonup> Document"
  now :: DateTime
  trace :: "Event list"

text \<open>
  How a piece of \<^verbatim>\<open>main_\<close> ends: it goes on with a value, it returns an exit code,
  an exception leaves it, or it indexes a vector out of range (undefined behaviour).
\<close>

datatype 'a Outcome = Ok 'a | Return ExitCodes | Throw Exception | UndefinedBehaviour

type_synonym 'a M = "World \<Rightarrow> 'a Outcome \<times> World"

definition andThen :: "'a M \<Rightarrow> ('a \<Rightarrow> 'b M) \<Rightarrow> 'b M" where
  "andThen m f w =
     (case m w of
        (Ok a, w') \<Rightarrow> f a w'
      | (Return c, w') \<Rightarrow> (Return c, w')
      | (Throw e, w') \<Rightarrow> (Throw e, w')
      | (UndefinedBehaviour, w') \<Rightarrow> (UndefinedBehaviour, w'))"

definition pure :: "'a Outcome \<Rightarrow> 'a M" where
  "pure r w = (r, w)"

definition emit :: "Event \<Rightarrow> World \<Rightarrow> World" where
  "emit e w = w\<lparr>trace := trace w @ [e]\<rparr>"

text \<open>The collaborators of the tool that the source file does not contain.\<close>

record Env =
  getType :: "(string \<rightharpoonup> Document) \<Rightarrow> string \<Rightarrow> FileType"
  linker_getDefaults :: Param
  linker_group :: "Param \<Rightarrow> FeatureMap list \<Rightarrow> Exception + ConsensusMap"
  consensus_apply ::
    "Algorithm \<Rightarrow> Param \<Rightarrow> PeptideIdentification list \<Rightarrow> Exception + PeptideIdentification list"
  getVersion :: string

subsection \<open>Files\<close>

text \<open>
  The readers and writers of the three formats, over a file system that maps a path to
  the parsed document: loading a path that has no file, or a file of another format,
  throws; storing always succeeds and replaces the file.
\<close>

definition IdXMLFile_load ::
  "string \<Rightarrow> (ProteinIdentification list \<times> PeptideIdentification list) M" where
  "IdXMLFile_load path w =
     (case files w path of
        None \<Rightarrow> (Throw (FileNotFound path), w)
      | Some (IdXMLDoc prot_ids pep_ids) \<Rightarrow> (Ok (prot_ids, pep_ids), w)
      | Some _ \<Rightarrow> (Throw (ParseError path), w))"

definition FeatureXMLFile_load :: "string \<Rightarrow> FeatureMap M" where
  "FeatureXMLFile_load path w =
     (case files w path of
        None \<Rightarrow> (Throw (FileNotFound path), w)
      | Some (FeatureXMLDoc m) \<Rightarrow> (Ok m, w)
      | Some _ \<Rightarrow> (Throw (ParseError path), w))"

definition ConsensusXMLFile_load :: "string \<Rightarrow> ConsensusMap M" where
  "ConsensusXMLFile_load path w =
     (case files w path of
        None \<Rightarrow> (Throw (FileNotFound path), w)
      | Some (ConsensusXMLDoc m) \<Rightarrow> (Ok m, w)
      | Some _ \<Rightarrow> (Throw (ParseError path), w))"

definition store :: "string \<Rightarrow> Document \<Rightarrow> unit M" where
  "store path doc w = (Ok (), emit (Store path doc) (w\<lparr>files := (files w)(path \<mapsto> doc)\<rparr>))"

subsection \<open>Options\<close>

text \<open>
  \<^verbatim>\<open>registerOptionsAndFlags_\<close> (lines 139-167), one entry per call, in the order of the
  source; the help texts are left out.
\<close>

datatype Registration =
  RegisterInputFile string string
| RegisterOutputFile string string
| SetValidFormats string "string list"
| RegisterDoubleOption string double
| SetMinFloat string double
| RegisterIntOption string int
| SetMinInt string int
| RegisterStringOption string string
| SetValidStrings string "string list"
| RegisterSubsection string

definition registerOptionsAndFlags :: "Registration list" where
  "registerOptionsAndFlags =
     [RegisterInputFile ''in'' [],
      SetValidFormats ''in'' [''idXML'', ''featureXML'', ''consensusXML''],
      RegisterOutputFile ''out'' [],
      SetValidFormats ''out'' [''idXML'', ''featureXML'', ''consensusXML''],
      RegisterDoubleOption ''rt_delta'' (Val (1 / 10)),
      SetMinFloat ''rt_delta'' (Val 0),
      RegisterDoubleOption ''mz_delta'' (Val (1 / 10)),
      SetMinFloat ''mz_delta'' (Val 0),
      RegisterIntOption ''considered_hits'' 10,
      SetMinInt ''considered_hits'' 0,
      RegisterStringOption ''algorithm'' ''PEPMatrix'',
      SetValidStrings ''algorithm'' [''PEPMatrix'', ''PEPIons'', ''best'', ''average'', ''ranks''],
      RegisterSubsection ''PEPIons'',
      RegisterSubsection ''PEPMatrix'']"

fun string_default :: "string \<Rightarrow> Registration \<Rightarrow> string option" where
  "string_default name (RegisterInputFile n d) = (if n = name then Some d else None)"
| "string_default name (RegisterOutputFile n d) = (if n = name then Some d else None)"
| "string_default name (RegisterStringOption n d) = (if n = name then Some d else None)"
| "string_default name _ = None"

fun valid_strings :: "string \<Rightarrow> Registration \<Rightarrow> string list option" where
  "valid_strings name (SetValidStrings n vs) = (if n = name then Some vs else None)"
| "valid_strings name _ = None"

fun double_default :: "string \<Rightarrow> Registration \<Rightarrow> double option" where
  "double_default name (RegisterDoubleOption n d) = (if n = name then Some d else None)"
| "double_default name _ = None"

fun min_float :: "string \<Rightarrow> Registration \<Rightarrow> double option" where
  "min_float name (SetMinFloat n m) = (if n = name then Some m else None)"
| "min_float name _ = None"

fun int_default :: "string \<Rightarrow> Registration \<Rightarrow> int option" where
  "int_default name (RegisterIntOption n d) = (if n = name then Some d else None)"
| "int_default name _ = None"

fun min_int :: "string \<Rightarrow> Registration \<Rightarrow> int option" where
  "min_int name (SetMinInt n m) = (if n = name then Some m else None)"
| "min_int name _ = None"

text \<open>\<^verbatim>\<open>a < b\<close> on doubles: false as soon as one side is not a number.\<close>

fun dless :: "double \<Rightarrow> double \<Rightarrow> bool" where
  "dless (Val a) (Val b) = (a < b)"
| "dless _ _ = False"

text \<open>
  Modelled from the spec: the option getters of the tool's base class (\<^verbatim>\<open>TOPPBase\<close>,
  not in the source file). The specification gives the configuration surface
  \<^verbatim>\<open>rt_delta >= 0\<close>, \<^verbatim>\<open>mz_delta >= 0\<close>, \<^verbatim>\<open>considered_hits >= 0\<close>,
  \<^verbatim>\<open>algorithm\<close> one of the five names, each with its default, and says that a value
  outside it is an invalid configuration. A getter reads the value given for the option,
  or the registered default when none is given, and throws when the value breaks a
  restriction that \<^verbatim>\<open>registerOptionsAndFlags_\<close> registered for that option.
\<close>

definition getStringOption :: "Registration list \<Rightarrow> Param \<Rightarrow> string \<Rightarrow> string Outcome" where
  "getStringOption regs param name =
     (case List.map_filter (string_default name) regs of
        [] \<Rightarrow> Throw (ElementNotFound name)
      | d # _ \<Rightarrow>
          (case (case getValue param name of
                   None \<Rightarrow> Ok d
                 | Some (StringValue s) \<Rightarrow> Ok s
                 | Some _ \<Rightarrow> Throw (WrongParameterType name)) of
             Ok s \<Rightarrow>
               if list_ex (\<lambda>vs. s \<notin> set vs) (List.map_filter (valid_strings name) regs)
               then Throw (InvalidParameter name) else Ok s
           | other \<Rightarrow> other))"

definition getDoubleOption :: "Registration list \<Rightarrow> Param \<Rightarrow> string \<Rightarrow> double Outcome" where
  "getDoubleOption regs param name =
     (case List.map_filter (double_default name) regs of
        [] \<Rightarrow> Throw (ElementNotFound name)
      | d # _ \<Rightarrow>
          (case (case getValue param name of
                   None \<Rightarrow> Ok d
                 | Some (DoubleValue x) \<Rightarrow> Ok x
                 | Some _ \<Rightarrow> Throw (WrongParameterType name)) of
             Ok x \<Rightarrow>
               if list_ex (\<lambda>m. dless x m) (List.map_filter (min_float name) regs)
               then Throw (InvalidParameter name) else Ok x
           | other \<Rightarrow> other))"

definition getIntOption :: "Registration list \<Rightarrow> Param \<Rightarrow> string \<Rightarrow> int Outcome" where
  "getIntOption regs param name =
     (case List.map_filter (int_default name) regs of
        [] \<Rightarrow> Throw (ElementNotFound name)
      | d # _ \<Rightarrow>
          (case (case getValue param name of
                   None \<Rightarrow> Ok d
                 | Some (IntValue i) \<Rightarrow> Ok i
                 | Some _ \<Rightarrow> Throw (WrongParameterType name)) of
             Ok i \<Rightarrow>
               if list_ex (\<lambda>m. i < m) (List.map_filter (min_int name) regs)
               then Throw (InvalidParameter name) else Ok i
           | other \<Rightarrow> other))"

subsection \<open>The tool\<close>

text \<open>\<^verbatim>\<open>setProteinIdentifications_\<close> (lines 169-176): clear, resize to one, stamp.\<close>

definition setProteinIdentifications ::
  "Env \<Rightarrow> ProteinIdentification list \<Rightarrow> ProteinIdentification list M" where
  "setProteinIdentifications env prot_ids w =
     (Ok [new_ProteinIdentification
            \<lparr>date_time := now w,
             search_engine := ''OpenMS/ConsensusID'',
             search_engine_version := getVersion env\<rparr>],
      emit DateTimeNow w)"

text \<open>Lines 192-213: the scorer object and the parameters copied for it.\<close>

definition select_algorithm :: "Param \<Rightarrow> string \<Rightarrow> Algorithm \<times> Param" where
  "select_algorithm param algorithm =
     (if algorithm = ''PEPMatrix'' then (PEPMatrix, copy ''PEPMatrix:'' True param)
      else if algorithm = ''PEPIons'' then (PEPIons, copy ''PEPIons:'' True param)
      else if algorithm = ''best'' then (Best, [])
      else if algorithm = ''average'' then (Average, [])
      else (Ranks, []))"

text \<open>Lines 232-235: run identifier to index of its feature map; a later run wins.\<close>

fun build_id_mapping ::
  "ProteinIdentification list \<Rightarrow> nat \<Rightarrow> (string \<rightharpoonup> nat) \<Rightarrow> (string \<rightharpoonup> nat)" where
  "build_id_mapping [] i m = m"
| "build_id_mapping (p # ps) i m = build_id_mapping ps (Suc i) (m(prot_identifier p \<mapsto> i))"

text \<open>\<^verbatim>\<open>std::map::operator[]\<close>: a key that is missing is inserted with the value 0.\<close>

definition subscript :: "(string \<rightharpoonup> nat) \<Rightarrow> string \<Rightarrow> nat \<times> (string \<rightharpoonup> nat)" where
  "subscript m k = (case m k of Some i \<Rightarrow> (i, m) | None \<Rightarrow> (0, m(k \<mapsto> 0)))"

definition feature_of :: "PeptideIdentification \<Rightarrow> Feature" where
  "feature_of pep =
     new_Feature\<lparr>f_rt := pep_rt pep, f_mz := pep_mz pep, f_peptide_ids := [pep]\<rparr>"

definition push_back :: "Feature \<Rightarrow> FeatureMap \<Rightarrow> FeatureMap" where
  "push_back f m = m\<lparr>fm_features := fm_features m @ [f]\<rparr>"

text \<open>
  Lines 237-252: one feature per peptide identification, put into the map of its run.
  The first identification without RT or m/z ends the run. \<^verbatim>\<open>maps[i]\<close> on a vector
  that has no element \<open>i\<close> is undefined behaviour.
\<close>

fun feature_loop ::
  "PeptideIdentification list \<Rightarrow> (string \<rightharpoonup> nat) \<Rightarrow> FeatureMap list \<Rightarrow> FeatureMap list M" where
  "feature_loop [] id_mapping maps w = (Ok maps, w)"
| "feature_loop (pep # rest) id_mapping maps w =
     (if \<not> hasRT pep \<or> \<not> hasMZ pep
      then (Return INCOMPATIBLE_INPUT_DATA, emit (LogFatalError (pep_identifier pep)) w)
      else
        (case subscript id_mapping (pep_identifier pep) of
           (i, id_mapping') \<Rightarrow>
             if i < length maps
             then feature_loop rest id_mapping'
                    (maps[i := push_back (feature_of pep) (maps ! i)]) w
             else (UndefinedBehaviour, w)))"

text \<open>Lines 260-267: the linker's parameters, set in the order of the source.\<close>

definition linker_params :: "Env \<Rightarrow> double \<Rightarrow> double \<Rightarrow> Param" where
  "linker_params env rt_delta mz_delta =
     fold (\<lambda>(k, v). setValue k v)
       [(''use_identifications'', StringValue ''false''),
        (''ignore_charge'', StringValue ''true''),
        (''distance_RT:max_difference'', DoubleValue rt_delta),
        (''distance_MZ:max_difference'', DoubleValue mz_delta),
        (''distance_MZ:unit'', StringValue ''Da'')]
       (linker_getDefaults env)"

definition group :: "Env \<Rightarrow> Param \<Rightarrow> FeatureMap list \<Rightarrow> ConsensusMap M" where
  "group env ps maps w =
     (case linker_group env ps maps of
        Inl e \<Rightarrow> (Throw e, emit (LinkerGroup ps maps) w)
      | Inr grouping \<Rightarrow> (Ok grouping, emit (LinkerGroup ps maps) w))"

definition setParameters :: "Algorithm \<Rightarrow> Param \<Rightarrow> unit M" where
  "setParameters consensus algo_param w =
     (Ok (), emit (ConsensusSetParameters consensus algo_param) w)"

definition apply_consensus ::
  "Env \<Rightarrow> Algorithm \<Rightarrow> Param \<Rightarrow> PeptideIdentification list \<Rightarrow> PeptideIdentification list M" where
  "apply_consensus env consensus algo_param ids w =
     (case consensus_apply env consensus algo_param ids of
        Inl e \<Rightarrow> (Throw e, emit (ConsensusApply ids) w)
      | Inr ids' \<Rightarrow> (Ok ids', emit (ConsensusApply ids) w))"

text \<open>
  Lines 276-287: score each group; keep the first identification of a group that has
  one, at the position of the group.
\<close>

fun collect_loop ::
  "Env \<Rightarrow> Algorithm \<Rightarrow> Param \<Rightarrow> ConsensusFeature list \<Rightarrow> PeptideIdentification list \<Rightarrow>
     PeptideIdentification list M" where
  "collect_loop env consensus algo_param [] pep_ids w = (Ok pep_ids, w)"
| "collect_loop env consensus algo_param (it # rest) pep_ids w =
     (case apply_consensus env consensus algo_param (cf_peptide_ids it) w of
        (Ok ids, w') \<Rightarrow>
          (case ids of
             [] \<Rightarrow> collect_loop env consensus algo_param rest pep_ids w'
           | pep_id # _ \<Rightarrow>
               collect_loop env consensus algo_param rest
                 (pep_ids @ [pep_id\<lparr>pep_rt := cf_rt it, pep_mz := cf_mz it\<rparr>]) w')
      | (Return c, w') \<Rightarrow> (Return c, w')
      | (Throw e, w') \<Rightarrow> (Throw e, w')
      | (UndefinedBehaviour, w') \<Rightarrow> (UndefinedBehaviour, w'))"

text \<open>Lines 309-312: score the identifications of each feature in place.\<close>

fun feature_apply_loop ::
  "Env \<Rightarrow> Algorithm \<Rightarrow> Param \<Rightarrow> Feature list \<Rightarrow> Feature list M" where
  "feature_apply_loop env consensus algo_param [] w = (Ok [], w)"
| "feature_apply_loop env consensus algo_param (it # rest) w =
     (case apply_consensus env consensus algo_param (f_peptide_ids it) w of
        (Ok ids, w') \<Rightarrow>
          (case feature_apply_loop env consensus algo_param rest w' of
             (Ok rest', w'') \<Rightarrow> (Ok (it\<lparr>f_peptide_ids := ids\<rparr> # rest'), w'')
           | (Return c, w'') \<Rightarrow> (Return c, w'')
           | (Throw e, w'') \<Rightarrow> (Throw e, w'')
           | (UndefinedBehaviour, w'') \<Rightarrow> (UndefinedBehaviour, w''))
      | (Return c, w') \<Rightarrow> (Return c, w')
      | (Throw e, w') \<Rightarrow> (Throw e, w')
      | (UndefinedBehaviour, w') \<Rightarrow> (UndefinedBehaviour, w'))"

text \<open>Lines 334-337: the same loop over the consensus features.\<close>

fun consensus_apply_loop ::
  "Env \<Rightarrow> Algorithm \<Rightarrow> Param \<Rightarrow> ConsensusFeature list \<Rightarrow> ConsensusFeature list M" where
  "consensus_apply_loop env consensus algo_param [] w = (Ok [], w)"
| "consensus_apply_loop env consensus algo_param (it # rest) w =
     (case apply_consensus env consensus algo_param (cf_peptide_ids it) w of
        (Ok ids, w') \<Rightarrow>
          (case consensus_apply_loop env consensus algo_param rest w' of
             (Ok rest', w'') \<Rightarrow> (Ok (it\<lparr>cf_peptide_ids := ids\<rparr> # rest'), w'')
           | (Return c, w'') \<Rightarrow> (Return c, w'')
           | (Throw e, w'') \<Rightarrow> (Throw e, w'')
           | (UndefinedBehaviour, w'') \<Rightarrow> (UndefinedBehaviour, w''))
      | (Return c, w') \<Rightarrow> (Return c, w')
      | (Throw e, w') \<Rightarrow> (Throw e, w')
      | (UndefinedBehaviour, w') \<Rightarrow> (UndefinedBehaviour, w'))"

text \<open>
  Lines 219-294, the idXML block. \<^verbatim>\<open>updateRanges\<close> recomputes the bounding box a
  feature map caches; the maps of the model have no such cache.
\<close>

definition idXML_block ::
  "Env \<Rightarrow> Algorithm \<Rightarrow> Param \<Rightarrow> string \<Rightarrow> string \<Rightarrow> double \<Rightarrow> double \<Rightarrow> unit M" where
  "idXML_block env consensus algo_param in_file out_file rt_delta mz_delta =
     andThen (IdXMLFile_load in_file) (\<lambda>(prot_ids, pep_ids).
     andThen (feature_loop pep_ids (build_id_mapping prot_ids 0 Map.empty)
                (replicate (length prot_ids) new_FeatureMap)) (\<lambda>maps.
     andThen (group env (linker_params env rt_delta mz_delta) maps) (\<lambda>grouping.
     andThen (setParameters consensus
                (setValue ''number_of_runs'' (SizeValue (length prot_ids)) algo_param)) (\<lambda>_.
     andThen (collect_loop env consensus
                (setValue ''number_of_runs'' (SizeValue (length prot_ids)) algo_param)
                (cm_features grouping) []) (\<lambda>pep_ids'.
     andThen (setProteinIdentifications env prot_ids) (\<lambda>prot_ids'.
     store out_file (IdXMLDoc prot_ids' pep_ids')))))))"

text \<open>Lines 299-319, the featureXML block.\<close>

definition featureXML_block ::
  "Env \<Rightarrow> Algorithm \<Rightarrow> Param \<Rightarrow> string \<Rightarrow> string \<Rightarrow> unit M" where
  "featureXML_block env consensus algo_param in_file out_file =
     andThen (FeatureXMLFile_load in_file) (\<lambda>map.
     andThen (setParameters consensus
                (setValue ''ranks:number_of_runs''
                   (SizeValue (length (fm_protein_ids map))) algo_param)) (\<lambda>_.
     andThen (feature_apply_loop env consensus
                (setValue ''ranks:number_of_runs''
                   (SizeValue (length (fm_protein_ids map))) algo_param)
                (fm_features map)) (\<lambda>features.
     andThen (setProteinIdentifications env (fm_protein_ids map)) (\<lambda>prot_ids'.
     store out_file
       (FeatureXMLDoc (map\<lparr>fm_features := features, fm_protein_ids := prot_ids'\<rparr>))))))"

text \<open>Lines 324-344, the consensusXML block.\<close>

definition consensusXML_block ::
  "Env \<Rightarrow> Algorithm \<Rightarrow> Param \<Rightarrow> string \<Rightarrow> string \<Rightarrow> unit M" where
  "consensusXML_block env consensus algo_param in_file out_file =
     andThen (ConsensusXMLFile_load in_file) (\<lambda>map.
     andThen (setParameters consensus
                (setValue ''ranks:number_of_runs''
                   (SizeValue (length (cm_protein_ids map))) algo_param)) (\<lambda>_.
     andThen (consensus_apply_loop env consensus
                (setValue ''ranks:number_of_runs''
                   (SizeValue (length (cm_protein_ids map))) algo_param)
                (cm_features map)) (\<lambda>features.
     andThen (setProteinIdentifications env (cm_protein_ids map)) (\<lambda>prot_ids'.
     store out_file
       (ConsensusXMLDoc (map\<lparr>cm_features := features, cm_protein_ids := prot_ids'\<rparr>))))))"

text \<open>
  \<^verbatim>\<open>main_\<close> (lines 178-349). \<open>param\<close> is the tool's parameter store
  (\<^verbatim>\<open>getParam_()\<close>). The three blocks are three \<^verbatim>\<open>if\<close>s in a row, not a chain.
\<close>

definition TOPPConsensusID_main :: "Env \<Rightarrow> Param \<Rightarrow> unit M" where
  "TOPPConsensusID_main env param =
     andThen (pure (getStringOption registerOptionsAndFlags param ''in'')) (\<lambda>in_file.
     andThen (\<lambda>w. (Ok (getType env (files w) in_file), w)) (\<lambda>in_type.
     andThen (pure (getStringOption registerOptionsAndFlags param ''out'')) (\<lambda>out_file.
     andThen (pure (getDoubleOption registerOptionsAndFlags param ''rt_delta'')) (\<lambda>rt_delta.
     andThen (pure (getDoubleOption registerOptionsAndFlags param ''mz_delta'')) (\<lambda>mz_delta.
     andThen (pure (getStringOption registerOptionsAndFlags param ''algorithm'')) (\<lambda>algorithm.
     case select_algorithm param algorithm of
       (consensus, algo_param0) \<Rightarrow>
     andThen (pure (getIntOption registerOptionsAndFlags param ''considered_hits''))
       (\<lambda>considered_hits.
         (let algo_param = setValue ''considered_hits'' (IntValue considered_hits) algo_param0 in
          andThen (if in_type = IDXML
                   then idXML_block env consensus algo_param in_file out_file rt_delta mz_delta
                   else pure (Ok ())) (\<lambda>_.
          andThen (if in_type = FEATUREXML
                   then featureXML_block env consensus algo_param in_file out_file
                   else pure (Ok ())) (\<lambda>_.
          andThen (if in_type = CONSENSUSXML
                   then consensusXML_block env consensus algo_param in_file out_file
                   else pure (Ok ())) (\<lambda>_.
          pure (Return EXECUTION_OK))))))))))))"

subsection \<open>Example inputs\<close>

text \<open>
  A small environment and a few documents, on which the theorems below are run: a file
  type read off the file name, a linker that puts every feature into a group of its own,
  and a scorer that drops the identifications without hits and, for the two probabilistic
  variants, rejects a score type other than posterior error probability.
\<close>

definition has_suffix :: "string \<Rightarrow> string \<Rightarrow> bool" where
  "has_suffix ext path = (drop (length path - length ext) path = ext)"

definition example_getType :: "(string \<rightharpoonup> Document) \<Rightarrow> string \<Rightarrow> FileType" where
  "example_getType fs path =
     (if has_suffix ''.idXML'' path then IDXML
      else if has_suffix ''.featureXML'' path then FEATUREXML
      else if has_suffix ''.consensusXML'' path then CONSENSUSXML
      else UNKNOWN)"

definition example_group :: "Param \<Rightarrow> FeatureMap list \<Rightarrow> Exception + ConsensusMap" where
  "example_group ps maps =
     Inr \<lparr>cm_features =
            map (\<lambda>f. \<lparr>cf_rt = f_rt f, cf_mz = f_mz f, cf_peptide_ids = f_peptide_ids f\<rparr>)
              (concat (map fm_features maps)),
          cm_protein_ids = []\<rparr>"

definition example_apply ::
  "Algorithm \<Rightarrow> Param \<Rightarrow> PeptideIdentification list \<Rightarrow> Exception + PeptideIdentification list" where
  "example_apply consensus ps ids =
     (if (consensus = PEPMatrix \<or> consensus = PEPIons) \<and>
         list_ex (\<lambda>p. score_type p \<noteq> ''Posterior Error Probability'') ids
      then Inl (External ''InvalidValue'')
      else Inr (filter (\<lambda>p. hits p \<noteq> []) ids))"

definition example_env :: Env where
  "example_env =
     \<lparr>getType = example_getType,
      linker_getDefaults = [(''ignore_charge'', StringValue ''false'')],
      linker_group = example_group,
      consensus_apply = example_apply,
      getVersion = ''2.0.0''\<rparr>"

definition run1 :: ProteinIdentification where
  "run1 = \<lparr>prot_identifier = ''run1'', search_engine = ''Mascot'',
     search_engine_version = ''2.4'', date_time = At 7\<rparr>"

definition run2 :: ProteinIdentification where
  "run2 = \<lparr>prot_identifier = ''run2'', search_engine = ''XTandem'',
     search_engine_version = ''1.0'', date_time = At 8\<rparr>"

definition pepA :: PeptideIdentification where
  "pepA = \<lparr>pep_identifier = ''run1'', pep_rt = Val 100, pep_mz = Val 500,
     score_type = ''Mascot'',
     hits = [\<lparr>sequence = ''PEPTIDEA'', score = Val (9 / 10), rank = 1\<rparr>]\<rparr>"

definition pepB :: PeptideIdentification where
  "pepB = \<lparr>pep_identifier = ''run2'', pep_rt = Val 200, pep_mz = Val 600,
     score_type = ''Mascot'',
     hits = [\<lparr>sequence = ''PEPTIDEB'', score = Val (8 / 10), rank = 1\<rparr>]\<rparr>"

definition pep_no_hits :: PeptideIdentification where
  "pep_no_hits = \<lparr>pep_identifier = ''run1'', pep_rt = Val 150, pep_mz = Val 550,
     score_type = ''Mascot'', hits = []\<rparr>"

definition pep_no_mz :: PeptideIdentification where
  "pep_no_mz = \<lparr>pep_identifier = ''run1'', pep_rt = Val 100, pep_mz = NaN,
     score_type = ''Mascot'',
     hits = [\<lparr>sequence = ''PEPTIDEA'', score = Val (9 / 10), rank = 1\<rparr>]\<rparr>"

definition flat_world :: World where
  "flat_world =
     \<lparr>files = [''in.idXML'' \<mapsto> IdXMLDoc [run1, run2] [pepA, pep_no_hits, pepB]],
      now = At 1000, trace = []\<rparr>"

definition flat_world_no_mz :: World where
  "flat_world_no_mz =
     \<lparr>files = [''in.idXML'' \<mapsto> IdXMLDoc [run1, run2] [pepA, pep_no_mz, pepB]],
      now = At 1000, trace = []\<rparr>"

definition flat_param :: Param where
  "flat_param =
     [(''in'', StringValue ''in.idXML''), (''out'', StringValue ''out.idXML''),
      (''algorithm'', StringValue ''best'')]"

definition other_param :: Param where
  "other_param =
     [(''in'', StringValue ''in.mzML''), (''out'', StringValue ''out.idXML''),
      (''algorithm'', StringValue ''best'')]"

definition flat_maps :: "FeatureMap list" where
  "flat_maps =
     [\<lparr>fm_features = [feature_of pepA, feature_of pep_no_hits], fm_protein_ids = []\<rparr>,
      \<lparr>fm_features = [feature_of pepB], fm_protein_ids = []\<rparr>]"

definition flat_grouping :: ConsensusMap where
  "flat_grouping =
     \<lparr>cm_features =
        [\<lparr>cf_rt = Val 100, cf_mz = Val 500, cf_peptide_ids = [pepA]\<rparr>,
         \<lparr>cf_rt = Val 150, cf_mz = Val 550, cf_peptide_ids = [pep_no_hits]\<rparr>,
         \<lparr>cf_rt = Val 200, cf_mz = Val 600, cf_peptide_ids = [pepB]\<rparr>],
      cm_protein_ids = []\<rparr>"



definition feature_world :: World where
  "feature_world =
     \<lparr>files = [''in.featureXML'' \<mapsto>
         FeatureXMLDoc
           \<lparr>fm_features =
              [\<lparr>f_rt = Val 100, f_mz = Val 500, f_charge = 2,
                f_peptide_ids = [pep_no_mz, pepB]\<rparr>],
            fm_protein_ids = [run1, run2]\<rparr>],
      now = At 1000, trace = []\<rparr>"

definition feature_param :: Param where
  "feature_param =
     [(''in'', StringValue ''in.featureXML''), (''out'', StringValue ''out.featureXML''),
      (''algorithm'', StringValue ''ranks'')]"

definition consensus_world :: World where
  "consensus_world =
     \<lparr>files = [''in.consensusXML'' \<mapsto>
         ConsensusXMLDoc
           \<lparr>cm_features =
              [\<lparr>cf_rt = Val 100, cf_mz = Val 500, cf_peptide_ids = [pep_no_mz, pepB]\<rparr>],
            cm_protein_ids = [run1, run2]\<rparr>],
      now = At 1000, trace = []\<rparr>"

definition consensus_param :: Param where
  "consensus_param =
     [(''in'', StringValue ''in.consensusXML''), (''out'', StringValue ''out.consensusXML''),
      (''algorithm'', StringValue ''ranks'')]"

definition pep_no_rt :: PeptideIdentification where
  "pep_no_rt = \<lparr>pep_identifier = ''run1'', pep_rt = NaN, pep_mz = Val 500,
     score_type = ''Mascot'',
     hits = [\<lparr>sequence = ''PEPTIDEA'', score = Val (9 / 10), rank = 1\<rparr>]\<rparr>"

definition feature_world_no_rt :: World where
  "feature_world_no_rt =
     \<lparr>files = [''in.featureXML'' \<mapsto>
         FeatureXMLDoc
           \<lparr>fm_features =
              [\<lparr>f_rt = Val 100, f_mz = Val 500, f_charge = 2,
                f_peptide_ids = [pep_no_rt, pepB]\<rparr>],
            fm_protein_ids = [run1, run2]\<rparr>],
      now = At 1000, trace = []\<rparr>"

definition consensus_world_no_rt :: World where
  "consensus_world_no_rt =
     \<lparr>files = [''in.consensusXML'' \<mapsto>
         ConsensusXMLDoc
           \<lparr>cm_features =
              [\<lparr>cf_rt = Val 100, cf_mz = Val 500, cf_peptide_ids = [pep_no_rt, pepB]\<rparr>],
            cm_protein_ids = [run1, run2]\<rparr>],
      now = At 1000, trace = []\<rparr>"

subsection \<open>Vocabulary of the properties\<close>

text \<open>
  \<open>extends P w w'\<close>: \<open>w'\<close> has the clock of \<open>w\<close> and the trace of \<open>w\<close> followed by
  events that all satisfy \<open>P\<close>.
\<close>

definition extends :: "(Event \<Rightarrow> bool) \<Rightarrow> World \<Rightarrow> World \<Rightarrow> bool" where
  "extends P w w' =
     (now w' = now w \<and> (\<exists>evs. trace w' = trace w @ evs \<and> list_all P evs))"

text \<open>The events a run may add when its linker parameters are \<open>lp\<close>.\<close>

fun linker_called_with :: "Param \<Rightarrow> Event \<Rightarrow> bool" where
  "linker_called_with lp (LinkerGroup ps maps) = (ps = lp)"
| "linker_called_with lp _ = True"

fun not_clock :: "Event \<Rightarrow> bool" where
  "not_clock DateTimeNow = False"
| "not_clock _ = True"

fun doc_protein_ids :: "Document \<Rightarrow> ProteinIdentification list" where
  "doc_protein_ids (IdXMLDoc prot_ids pep_ids) = prot_ids"
| "doc_protein_ids (FeatureXMLDoc m) = fm_protein_ids m"
| "doc_protein_ids (ConsensusXMLDoc m) = cm_protein_ids m"

text \<open>
  A world with every timestamp of a run record blanked, in the files, in the documents the
  trace says were stored, and on the clock. \<open>ignores_clock m\<close>: the step \<open>m\<close> neither
  reads nor sets the clock. \<open>same_up_to_time m\<close>: run at two times, \<open>m\<close> ends the same
  way, in worlds that differ in timestamps only.
\<close>

definition erase_time :: "ProteinIdentification \<Rightarrow> ProteinIdentification" where
  "erase_time p = p\<lparr>date_time := NullDateTime\<rparr>"

fun forget_doc :: "Document \<Rightarrow> Document" where
  "forget_doc (IdXMLDoc prot_ids pep_ids) = IdXMLDoc (map erase_time prot_ids) pep_ids"
| "forget_doc (FeatureXMLDoc m) =
     FeatureXMLDoc (m\<lparr>fm_protein_ids := map erase_time (fm_protein_ids m)\<rparr>)"
| "forget_doc (ConsensusXMLDoc m) =
     ConsensusXMLDoc (m\<lparr>cm_protein_ids := map erase_time (cm_protein_ids m)\<rparr>)"

fun forget_event :: "Event \<Rightarrow> Event" where
  "forget_event (Store path doc) = Store path (forget_doc doc)"
| "forget_event e = e"

definition forget_time :: "World \<Rightarrow> World" where
  "forget_time w =
     \<lparr>files = (\<lambda>path. map_option forget_doc (files w path)),
      now = NullDateTime,
      trace = map forget_event (trace w)\<rparr>"

definition ignores_clock :: "'a M \<Rightarrow> bool" where
  "ignores_clock m = (\<forall>w t. m (w\<lparr>now := t\<rparr>) = (fst (m w), (snd (m w))\<lparr>now := t\<rparr>))"

definition same_up_to_time :: "'a M \<Rightarrow> bool" where
  "same_up_to_time m =
     (\<forall>w t1 t2. fst (m (w\<lparr>now := t1\<rparr>)) = fst (m (w\<lparr>now := t2\<rparr>)) \<and>
        forget_time (snd (m (w\<lparr>now := t1\<rparr>))) = forget_time (snd (m (w\<lparr>now := t2\<rparr>))))"

section \<open>Properties\<close>

subsection \<open>Auxiliary facts\<close>

lemmas option_eval =
  getStringOption_def getDoubleOption_def getIntOption_def registerOptionsAndFlags_def
  List.map_filter_def getValue_def

lemmas example_eval =
  example_env_def example_getType_def has_suffix_def example_group_def example_apply_def
  run1_def run2_def pepA_def pepB_def pep_no_hits_def pep_no_mz_def
  flat_world_def flat_world_no_mz_def flat_param_def other_param_def

lemmas flat_eval = flat_maps_def flat_grouping_def feature_of_def new_Feature_def
  new_FeatureMap_def push_back_def subscript_def hasRT_def hasMZ_def select_algorithm_def
  linker_params_def

lemma getValue_setValue:
  "getValue (setValue k v ps) k' = (if k' = k then Some v else getValue ps k')"
  by (induction ps) (auto simp: getValue_def)

lemma andThen_Ok: "m w = (Ok a, w') \<Longrightarrow> andThen m f w = f a w'"
  by (simp add: andThen_def)

lemma andThen_pure_Ok [simp]: "andThen (pure (Ok a)) f w = f a w"
  by (simp add: andThen_def pure_def)

lemma andThen_read: "andThen (\<lambda>w. (Ok (g w), w)) f w = f (g w) w"
  by (simp add: andThen_def)

lemma main_unfold:
  assumes "getStringOption registerOptionsAndFlags param ''in'' = Ok in_file"
    and "getStringOption registerOptionsAndFlags param ''out'' = Ok out_file"
    and "getDoubleOption registerOptionsAndFlags param ''rt_delta'' = Ok rt_delta"
    and "getDoubleOption registerOptionsAndFlags param ''mz_delta'' = Ok mz_delta"
    and "getStringOption registerOptionsAndFlags param ''algorithm'' = Ok algorithm"
    and "getIntOption registerOptionsAndFlags param ''considered_hits'' = Ok considered_hits"
    and "select_algorithm param algorithm = (consensus, algo_param0)"
  shows "TOPPConsensusID_main env param w =
     andThen (if getType env (files w) in_file = IDXML
              then idXML_block env consensus
                     (setValue ''considered_hits'' (IntValue considered_hits) algo_param0)
                     in_file out_file rt_delta mz_delta
              else pure (Ok ())) (\<lambda>_.
     andThen (if getType env (files w) in_file = FEATUREXML
              then featureXML_block env consensus
                     (setValue ''considered_hits'' (IntValue considered_hits) algo_param0)
                     in_file out_file
              else pure (Ok ())) (\<lambda>_.
     andThen (if getType env (files w) in_file = CONSENSUSXML
              then consensusXML_block env consensus
                     (setValue ''considered_hits'' (IntValue considered_hits) algo_param0)
                     in_file out_file
              else pure (Ok ())) (\<lambda>_.
     pure (Return EXECUTION_OK)))) w"
  using assms by (simp add: TOPPConsensusID_main_def andThen_read)

lemma build_id_mapping_bound:
  "(\<And>k v. m k = Some v \<Longrightarrow> v < i + length ps) \<Longrightarrow>
   build_id_mapping ps i m k = Some v \<Longrightarrow> v < i + length ps"
proof (induction ps arbitrary: i m)
  case Nil
  then show ?case by simp
next
  case (Cons p ps)
  have "v < Suc i + length ps"
  proof (rule Cons.IH)
    show "build_id_mapping ps (Suc i) (m(prot_identifier p \<mapsto> i)) k = Some v"
      using Cons.prems(2) by simp
  next
    fix k' v' assume "(m(prot_identifier p \<mapsto> i)) k' = Some v'"
    then show "v' < Suc i + length ps"
      using Cons.prems(1)[of k' v'] by (auto split: if_splits)
  qed
  then show ?case by simp
qed

lemma feature_loop_bad:
  assumes "\<exists>p \<in> set peps. \<not> hasRT p \<or> \<not> hasMZ p"
    and "maps \<noteq> []"
    and "\<And>k v. idm k = Some v \<Longrightarrow> v < length maps"
  shows "feature_loop peps idm maps w =
     (Return INCOMPATIBLE_INPUT_DATA,
      emit (LogFatalError (pep_identifier (hd (filter (\<lambda>p. \<not> hasRT p \<or> \<not> hasMZ p) peps)))) w)"
  using assms
proof (induction peps arbitrary: idm maps)
  case Nil
  then show ?case by simp
next
  case (Cons p peps)
  show ?case
  proof (cases "\<not> hasRT p \<or> \<not> hasMZ p")
    case True
    then show ?thesis by simp
  next
    case False
    obtain i idm' where s: "subscript idm (pep_identifier p) = (i, idm')"
      by (cases "subscript idm (pep_identifier p)")
    have i: "i < length maps"
      using s Cons.prems(2,3) by (auto simp: subscript_def split: option.splits)
    have idm': "\<And>k v. idm' k = Some v \<Longrightarrow> v < length maps"
      using s Cons.prems(2,3) by (auto simp: subscript_def split: option.splits if_splits)
    have "feature_loop peps idm' (maps[i := push_back (feature_of p) (maps ! i)]) w =
       (Return INCOMPATIBLE_INPUT_DATA,
        emit (LogFatalError (pep_identifier (hd (filter (\<lambda>p. \<not> hasRT p \<or> \<not> hasMZ p) peps)))) w)"
      using Cons.prems(1,2) False idm' by (intro Cons.IH) auto
    then show ?thesis using False s i by simp
  qed
qed

text \<open>
  Why the facts above ask for a non-empty vector of maps: with no identification run the
  first complete identification is put into \<^verbatim>\<open>maps[0]\<close> of an empty vector.
\<close>

lemma feature_loop_no_runs:
  "hasRT pep \<Longrightarrow> hasMZ pep \<Longrightarrow>
   feature_loop (pep # rest) Map.empty [] w = (UndefinedBehaviour, w)"
  by (simp add: subscript_def)

lemma feature_loop_good:
  assumes "\<forall>p \<in> set peps. hasRT p \<and> hasMZ p"
    and "maps \<noteq> []"
    and "\<And>k v. idm k = Some v \<Longrightarrow> v < length maps"
  shows "\<exists>maps'. feature_loop peps idm maps w = (Ok maps', w) \<and> length maps' = length maps"
  using assms
proof (induction peps arbitrary: idm maps)
  case Nil
  then show ?case by simp
next
  case (Cons p peps)
  obtain i idm' where s: "subscript idm (pep_identifier p) = (i, idm')"
    by (cases "subscript idm (pep_identifier p)")
  have i: "i < length maps"
    using s Cons.prems(2,3) by (auto simp: subscript_def split: option.splits)
  have idm': "\<And>k v. idm' k = Some v \<Longrightarrow> v < length maps"
    using s Cons.prems(2,3) by (auto simp: subscript_def split: option.splits if_splits)
  have "\<exists>maps'. feature_loop peps idm' (maps[i := push_back (feature_of p) (maps ! i)]) w = (Ok maps', w)
      \<and> length maps' = length (maps[i := push_back (feature_of p) (maps ! i)])"
    using Cons.prems(1,2) idm' by (intro Cons.IH) auto
  then show ?case using Cons.prems(1) s i by simp
qed

lemma collect_loop_ok:
  assumes "\<forall>g \<in> set gs. consensus_apply env consensus ap (cf_peptide_ids g) = Inr (scored g)"
  shows "collect_loop env consensus ap gs acc w =
     (Ok (acc @ map (\<lambda>g. (hd (scored g))\<lparr>pep_rt := cf_rt g, pep_mz := cf_mz g\<rparr>)
                  (filter (\<lambda>g. scored g \<noteq> []) gs)),
      w\<lparr>trace := trace w @ map (\<lambda>g. ConsensusApply (cf_peptide_ids g)) gs\<rparr>)"
  using assms
proof (induction gs arbitrary: acc w)
  case Nil
  then show ?case by simp
next
  case (Cons g gs)
  then show ?case
    by (cases "scored g") (simp_all add: apply_consensus_def emit_def)
qed

lemma feature_apply_loop_ok:
  assumes "\<forall>f \<in> set fs. consensus_apply env consensus ap (f_peptide_ids f) = Inr (scored f)"
  shows "feature_apply_loop env consensus ap fs w =
     (Ok (map (\<lambda>f. f\<lparr>f_peptide_ids := scored f\<rparr>) fs),
      w\<lparr>trace := trace w @ map (\<lambda>f. ConsensusApply (f_peptide_ids f)) fs\<rparr>)"
  using assms
  by (induction fs arbitrary: w) (simp_all add: apply_consensus_def emit_def)

lemma consensus_apply_loop_ok:
  assumes "\<forall>f \<in> set fs. consensus_apply env consensus ap (cf_peptide_ids f) = Inr (scored f)"
  shows "consensus_apply_loop env consensus ap fs w =
     (Ok (map (\<lambda>f. f\<lparr>cf_peptide_ids := scored f\<rparr>) fs),
      w\<lparr>trace := trace w @ map (\<lambda>f. ConsensusApply (cf_peptide_ids f)) fs\<rparr>)"
  using assms
  by (induction fs arbitrary: w) (simp_all add: apply_consensus_def emit_def)

lemma idXML_block_success:
  assumes load: "files w in_file = Some (IdXMLDoc prot_ids pep_ids)"
    and loop: "feature_loop pep_ids (build_id_mapping prot_ids 0 Map.empty)
                 (replicate (length prot_ids) new_FeatureMap) w = (Ok maps, w)"
    and grp: "linker_group env (linker_params env rt_delta mz_delta) maps = Inr grouping"
    and sc: "\<forall>g \<in> set (cm_features grouping).
               consensus_apply env consensus
                 (setValue ''number_of_runs'' (SizeValue (length prot_ids)) ap)
                 (cf_peptide_ids g) = Inr (scored g)"
  shows "idXML_block env consensus ap in_file out_file rt_delta mz_delta w =
     (Ok (),
      w\<lparr>files := (files w)(out_file \<mapsto>
           IdXMLDoc
             [\<lparr>prot_identifier = [], search_engine = ''OpenMS/ConsensusID'',
               search_engine_version = getVersion env, date_time = now w\<rparr>]
             (map (\<lambda>g. (hd (scored g))\<lparr>pep_rt := cf_rt g, pep_mz := cf_mz g\<rparr>)
                (filter (\<lambda>g. scored g \<noteq> []) (cm_features grouping)))),
        trace := trace w @
          [LinkerGroup (linker_params env rt_delta mz_delta) maps,
           ConsensusSetParameters consensus
             (setValue ''number_of_runs'' (SizeValue (length prot_ids)) ap)] @
          map (\<lambda>g. ConsensusApply (cf_peptide_ids g)) (cm_features grouping) @
          [DateTimeNow,
           Store out_file
             (IdXMLDoc
               [\<lparr>prot_identifier = [], search_engine = ''OpenMS/ConsensusID'',
                 search_engine_version = getVersion env, date_time = now w\<rparr>]
               (map (\<lambda>g. (hd (scored g))\<lparr>pep_rt := cf_rt g, pep_mz := cf_mz g\<rparr>)
                  (filter (\<lambda>g. scored g \<noteq> []) (cm_features grouping))))]\<rparr>)"
proof -
  have 1: "IdXMLFile_load in_file w = (Ok (prot_ids, pep_ids), w)"
    using load by (simp add: IdXMLFile_load_def)
  have 2: "group env (linker_params env rt_delta mz_delta) maps w =
      (Ok grouping, emit (LinkerGroup (linker_params env rt_delta mz_delta) maps) w)"
    using grp by (simp add: group_def)
  show ?thesis
    unfolding idXML_block_def
    by (simp add: andThen_def 1 loop 2 collect_loop_ok[OF sc] setParameters_def
        setProteinIdentifications_def store_def emit_def new_ProteinIdentification_def)
qed

lemma getStringOption_cases:
  "(\<exists>s. getStringOption regs param name = Ok s) \<or> (\<exists>e. getStringOption regs param name = Throw e)"
  by (auto simp: getStringOption_def split: list.splits option.splits ParamValue.splits)

lemma getDoubleOption_cases:
  "(\<exists>s. getDoubleOption regs param name = Ok s) \<or> (\<exists>e. getDoubleOption regs param name = Throw e)"
  by (auto simp: getDoubleOption_def split: list.splits option.splits ParamValue.splits)

lemma getIntOption_cases:
  "(\<exists>s. getIntOption regs param name = Ok s) \<or> (\<exists>e. getIntOption regs param name = Throw e)"
  by (auto simp: getIntOption_def split: list.splits option.splits ParamValue.splits)

lemma main_getter_cases:
  obtains (ok) in_file out_file rt_delta mz_delta algorithm considered_hits where
      "getStringOption registerOptionsAndFlags param ''in'' = Ok in_file"
      "getStringOption registerOptionsAndFlags param ''out'' = Ok out_file"
      "getDoubleOption registerOptionsAndFlags param ''rt_delta'' = Ok rt_delta"
      "getDoubleOption registerOptionsAndFlags param ''mz_delta'' = Ok mz_delta"
      "getStringOption registerOptionsAndFlags param ''algorithm'' = Ok algorithm"
      "getIntOption registerOptionsAndFlags param ''considered_hits'' = Ok considered_hits"
  | (throw) e where "\<And>env w. TOPPConsensusID_main env param w = (Throw e, w)"
proof -
  consider in_file where "getStringOption registerOptionsAndFlags param ''in'' = Ok in_file"
    | e where "getStringOption registerOptionsAndFlags param ''in'' = Throw e"
    using getStringOption_cases by blast
  then show thesis
  proof cases
    case 2
    then have "\<And>env w. TOPPConsensusID_main env param w = (Throw e, w)"
      by (simp add: TOPPConsensusID_main_def andThen_def pure_def)
    then show thesis by (rule throw)
  next
    case g1: 1
    consider out_file where "getStringOption registerOptionsAndFlags param ''out'' = Ok out_file"
      | e where "getStringOption registerOptionsAndFlags param ''out'' = Throw e"
      using getStringOption_cases by blast
    then show thesis
    proof cases
      case 2
      then have "\<And>env w. TOPPConsensusID_main env param w = (Throw e, w)"
        using g1 by (simp add: TOPPConsensusID_main_def andThen_def pure_def)
      then show thesis by (rule throw)
    next
      case g2: 1
      consider rt_delta where "getDoubleOption registerOptionsAndFlags param ''rt_delta'' = Ok rt_delta"
        | e where "getDoubleOption registerOptionsAndFlags param ''rt_delta'' = Throw e"
        using getDoubleOption_cases by blast
      then show thesis
      proof cases
        case 2
        then have "\<And>env w. TOPPConsensusID_main env param w = (Throw e, w)"
          using g1 g2 by (simp add: TOPPConsensusID_main_def andThen_def pure_def)
        then show thesis by (rule throw)
      next
        case g3: 1
        consider mz_delta where "getDoubleOption registerOptionsAndFlags param ''mz_delta'' = Ok mz_delta"
          | e where "getDoubleOption registerOptionsAndFlags param ''mz_delta'' = Throw e"
          using getDoubleOption_cases by blast
        then show thesis
        proof cases
          case 2
          then have "\<And>env w. TOPPConsensusID_main env param w = (Throw e, w)"
            using g1 g2 g3 by (simp add: TOPPConsensusID_main_def andThen_def pure_def)
          then show thesis by (rule throw)
        next
          case g4: 1
          consider algorithm where "getStringOption registerOptionsAndFlags param ''algorithm'' = Ok algorithm"
            | e where "getStringOption registerOptionsAndFlags param ''algorithm'' = Throw e"
            using getStringOption_cases by blast
          then show thesis
          proof cases
            case 2
            then have "\<And>env w. TOPPConsensusID_main env param w = (Throw e, w)"
              using g1 g2 g3 g4 by (simp add: TOPPConsensusID_main_def andThen_def pure_def)
            then show thesis by (rule throw)
          next
            case g5: 1
            consider considered_hits where "getIntOption registerOptionsAndFlags param ''considered_hits'' = Ok considered_hits"
              | e where "getIntOption registerOptionsAndFlags param ''considered_hits'' = Throw e"
              using getIntOption_cases by blast
            then show thesis
            proof cases
              case 2
              then have "\<And>env w. TOPPConsensusID_main env param w = (Throw e, w)"
                using g1 g2 g3 g4 g5
                by (simp add: TOPPConsensusID_main_def andThen_def pure_def split: prod.splits)
              then show thesis by (rule throw)
            next
              case g6: 1
              show thesis by (rule ok[OF g1 g2 g3 g4 g5 g6])
            qed
          qed
        qed
      qed
    qed
  qed
qed





lemma extends_refl [simp]: "extends P w w"
  by (simp add: extends_def)

lemma extends_trans [trans]: "extends P w w1 \<Longrightarrow> extends P w1 w2 \<Longrightarrow> extends P w w2"
  by (auto simp: extends_def)

lemma extends_emit: "P e \<Longrightarrow> extends P w (emit e w)"
  by (simp add: extends_def emit_def)

lemma extends_andThen:
  assumes "extends P w (snd (m w))"
    and "\<And>a w1. m w = (Ok a, w1) \<Longrightarrow> extends P w1 (snd (f a w1))"
  shows "extends P w (snd (andThen m f w))"
proof (cases "m w")
  case (Pair r w1)
  show ?thesis
  proof (cases r)
    case (Ok a)
    then show ?thesis
      using assms Pair by (auto simp: andThen_def intro: extends_trans)
  qed (use assms(1) Pair in \<open>simp_all add: andThen_def\<close>)
qed

lemma extends_pure [simp]: "extends P w (snd (pure r w))"
  by (simp add: pure_def)

lemma extends_IdXMLFile_load [simp]: "extends P w (snd (IdXMLFile_load path w))"
  by (simp add: IdXMLFile_load_def split: option.splits Document.splits)

lemma extends_FeatureXMLFile_load [simp]: "extends P w (snd (FeatureXMLFile_load path w))"
  by (simp add: FeatureXMLFile_load_def split: option.splits Document.splits)

lemma extends_ConsensusXMLFile_load [simp]: "extends P w (snd (ConsensusXMLFile_load path w))"
  by (simp add: ConsensusXMLFile_load_def split: option.splits Document.splits)

lemma extends_feature_loop:
  "(\<And>run_id. P (LogFatalError run_id)) \<Longrightarrow> extends P w (snd (feature_loop peps idm maps w))"
  by (induction peps arbitrary: idm maps) (auto split: prod.splits intro: extends_emit)

lemma extends_group:
  "P (LinkerGroup ps maps) \<Longrightarrow> extends P w (snd (group env ps maps w))"
  by (auto simp: group_def split: sum.splits intro: extends_emit)

lemma extends_setParameters:
  "P (ConsensusSetParameters consensus ap) \<Longrightarrow> extends P w (snd (setParameters consensus ap w))"
  by (auto simp: setParameters_def intro: extends_emit)

lemma extends_apply_consensus:
  "P (ConsensusApply ids) \<Longrightarrow> extends P w (snd (apply_consensus env consensus ap ids w))"
  by (auto simp: apply_consensus_def split: sum.splits intro: extends_emit)

lemma apply_consensus_cases:
  "(\<exists>ids'. apply_consensus env consensus ap ids w = (Ok ids', emit (ConsensusApply ids) w)) \<or>
   (\<exists>e. apply_consensus env consensus ap ids w = (Throw e, emit (ConsensusApply ids) w))"
  by (auto simp: apply_consensus_def split: sum.splits)

lemma extends_collect_loop:
  assumes "\<And>ids. P (ConsensusApply ids)"
  shows "extends P w (snd (collect_loop env consensus ap gs acc w))"
proof (induction gs arbitrary: acc w)
  case Nil
  then show ?case by simp
next
  case (Cons g gs)
  have e: "extends P w (emit (ConsensusApply (cf_peptide_ids g)) w)"
    using assms by (rule extends_emit)
  from apply_consensus_cases[of env consensus ap "cf_peptide_ids g" w]
  show ?case
  proof (elim disjE exE)
    fix ids' assume a: "apply_consensus env consensus ap (cf_peptide_ids g) w =
        (Ok ids', emit (ConsensusApply (cf_peptide_ids g)) w)"
    show ?thesis
      using a e Cons.IH by (cases ids') (auto intro: extends_trans)
  next
    fix ex assume "apply_consensus env consensus ap (cf_peptide_ids g) w =
        (Throw ex, emit (ConsensusApply (cf_peptide_ids g)) w)"
    then show ?thesis using e by simp
  qed
qed

lemma extends_feature_apply_loop:
  assumes "\<And>ids. P (ConsensusApply ids)"
  shows "extends P w (snd (feature_apply_loop env consensus ap fs w))"
proof (induction fs arbitrary: w)
  case Nil
  then show ?case by simp
next
  case (Cons g gs)
  have e: "extends P w (emit (ConsensusApply (f_peptide_ids g)) w)"
    using assms by (rule extends_emit)
  from apply_consensus_cases[of env consensus ap "f_peptide_ids g" w]
  show ?case
  proof (elim disjE exE)
    fix ids' assume a: "apply_consensus env consensus ap (f_peptide_ids g) w =
        (Ok ids', emit (ConsensusApply (f_peptide_ids g)) w)"
    have "extends P w (snd (feature_apply_loop env consensus ap gs
             (emit (ConsensusApply (f_peptide_ids g)) w)))"
      using e Cons.IH by (rule extends_trans)
    then show ?thesis
      using a by (auto split: prod.splits Outcome.splits)
  next
    fix ex assume "apply_consensus env consensus ap (f_peptide_ids g) w =
        (Throw ex, emit (ConsensusApply (f_peptide_ids g)) w)"
    then show ?thesis using e by simp
  qed
qed

lemma extends_consensus_apply_loop:
  assumes "\<And>ids. P (ConsensusApply ids)"
  shows "extends P w (snd (consensus_apply_loop env consensus ap fs w))"
proof (induction fs arbitrary: w)
  case Nil
  then show ?case by simp
next
  case (Cons g gs)
  have e: "extends P w (emit (ConsensusApply (cf_peptide_ids g)) w)"
    using assms by (rule extends_emit)
  from apply_consensus_cases[of env consensus ap "cf_peptide_ids g" w]
  show ?case
  proof (elim disjE exE)
    fix ids' assume a: "apply_consensus env consensus ap (cf_peptide_ids g) w =
        (Ok ids', emit (ConsensusApply (cf_peptide_ids g)) w)"
    have "extends P w (snd (consensus_apply_loop env consensus ap gs
             (emit (ConsensusApply (cf_peptide_ids g)) w)))"
      using e Cons.IH by (rule extends_trans)
    then show ?thesis
      using a by (auto split: prod.splits Outcome.splits)
  next
    fix ex assume "apply_consensus env consensus ap (cf_peptide_ids g) w =
        (Throw ex, emit (ConsensusApply (cf_peptide_ids g)) w)"
    then show ?thesis using e by simp
  qed
qed

lemma extends_setProteinIdentifications:
  "P DateTimeNow \<Longrightarrow> extends P w (snd (setProteinIdentifications env prot_ids w))"
  by (auto simp: setProteinIdentifications_def intro: extends_emit)

lemma extends_store:
  "P (Store path doc) \<Longrightarrow> extends P w (snd (store path doc w))"
  by (simp add: store_def extends_def emit_def)

lemma extends_idXML_block:
  "extends (linker_called_with (linker_params env rt_delta mz_delta)) w
     (snd (idXML_block env consensus ap in_file out_file rt_delta mz_delta w))"
  unfolding idXML_block_def
  by (intro allI impI extends_andThen extends_IdXMLFile_load extends_feature_loop extends_group
      extends_setParameters extends_collect_loop extends_setProteinIdentifications
      extends_store | simp split: prod.splits)+

lemma extends_featureXML_block:
  "extends (linker_called_with lp) w (snd (featureXML_block env consensus ap in_file out_file w))"
  unfolding featureXML_block_def
  by (intro allI impI extends_andThen extends_FeatureXMLFile_load
      extends_setParameters extends_feature_apply_loop extends_setProteinIdentifications
      extends_store | simp split: prod.splits)+

lemma extends_consensusXML_block:
  "extends (linker_called_with lp) w (snd (consensusXML_block env consensus ap in_file out_file w))"
  unfolding consensusXML_block_def
  by (intro allI impI extends_andThen extends_ConsensusXMLFile_load
      extends_setParameters extends_consensus_apply_loop extends_setProteinIdentifications
      extends_store | simp split: prod.splits)+

lemma linker_params_values:
  "getValue (linker_params env rt_delta mz_delta) ''ignore_charge'' = Some (StringValue ''true'')"
  "getValue (linker_params env rt_delta mz_delta) ''distance_MZ:unit'' = Some (StringValue ''Da'')"
  "getValue (linker_params env rt_delta mz_delta) ''distance_RT:max_difference'' =
     Some (DoubleValue rt_delta)"
  "getValue (linker_params env rt_delta mz_delta) ''distance_MZ:max_difference'' =
     Some (DoubleValue mz_delta)"
  by (simp_all add: linker_params_def getValue_setValue)

lemma extends_main:
  assumes "getDoubleOption registerOptionsAndFlags param ''rt_delta'' = Ok rt_delta"
    and "getDoubleOption registerOptionsAndFlags param ''mz_delta'' = Ok mz_delta"
  shows "extends (linker_called_with (linker_params env rt_delta mz_delta)) w
           (snd (TOPPConsensusID_main env param w))"
proof (cases rule: main_getter_cases[of param])
  case (ok in_file out_file rt_delta' mz_delta' algorithm considered_hits)
  obtain consensus algo_param0 where
    sel: "select_algorithm param algorithm = (consensus, algo_param0)"
    by (cases "select_algorithm param algorithm")
  have rt: "rt_delta' = rt_delta" and mz: "mz_delta' = mz_delta"
    using ok(3,4) assms by simp_all
  show ?thesis
    unfolding main_unfold[OF ok sel] rt mz
    by (intro extends_andThen extends_pure | simp add: extends_idXML_block
        extends_featureXML_block extends_consensusXML_block)+
next
  case (throw e)
  then show ?thesis by simp
qed

lemma andThen_OkE:
  assumes "andThen m f w = (Ok b, w')"
  obtains a w1 where "m w = (Ok a, w1)" "f a w1 = (Ok b, w')"
  using assms by (auto simp: andThen_def split: prod.splits Outcome.splits)

lemma stamp_and_store:
  assumes ext: "extends not_clock w w5"
    and run: "andThen (setProteinIdentifications env prot_ids) (\<lambda>prot_ids'. store out_file (D prot_ids')) w5
              = (Ok u, w')"
  shows "\<exists>evs. files w' out_file =
             Some (D [\<lparr>prot_identifier = [], search_engine = ''OpenMS/ConsensusID'',
                      search_engine_version = getVersion env, date_time = now w\<rparr>]) \<and>
           trace w' = trace w @ evs @
             [DateTimeNow,
              Store out_file
                (D [\<lparr>prot_identifier = [], search_engine = ''OpenMS/ConsensusID'',
                     search_engine_version = getVersion env, date_time = now w\<rparr>])] \<and>
           DateTimeNow \<notin> set evs"
proof -
  from ext obtain evs where evs: "now w5 = now w" "trace w5 = trace w @ evs" "list_all not_clock evs"
    by (auto simp: extends_def)
  have "DateTimeNow \<notin> set evs"
    using evs(3) by (auto simp: list_all_iff)
  moreover have "w' = emit (Store out_file (D [\<lparr>prot_identifier = [], search_engine = ''OpenMS/ConsensusID'',
                      search_engine_version = getVersion env, date_time = now w\<rparr>]))
      ((emit DateTimeNow w5)\<lparr>files := (files w5)(out_file \<mapsto>
          D [\<lparr>prot_identifier = [], search_engine = ''OpenMS/ConsensusID'',
                      search_engine_version = getVersion env, date_time = now w\<rparr>])\<rparr>)"
    using run evs(1)
    by (simp add: andThen_def setProteinIdentifications_def store_def emit_def
        new_ProteinIdentification_def)
  ultimately show ?thesis
    using evs(2) by (intro exI[of _ evs]) (simp add: emit_def)
qed

lemma idXML_block_Ok:
  assumes "idXML_block env consensus ap in_file out_file rt_delta mz_delta w = (Ok u, w')"
  shows "\<exists>doc evs. files w' out_file = Some doc \<and>
           doc_protein_ids doc =
             [\<lparr>prot_identifier = [], search_engine = ''OpenMS/ConsensusID'',
               search_engine_version = getVersion env, date_time = now w\<rparr>] \<and>
           trace w' = trace w @ evs @ [DateTimeNow, Store out_file doc] \<and>
           DateTimeNow \<notin> set evs"
proof -
  from assms[unfolded idXML_block_def] obtain a w1 where
    1: "IdXMLFile_load in_file w = (Ok a, w1)" and
    r1: "(case a of (prot_ids, pep_ids) \<Rightarrow>
           andThen (feature_loop pep_ids (build_id_mapping prot_ids 0 Map.empty)
                      (replicate (length prot_ids) new_FeatureMap)) (\<lambda>maps.
           andThen (group env (linker_params env rt_delta mz_delta) maps) (\<lambda>grouping.
           andThen (setParameters consensus
                      (setValue ''number_of_runs'' (SizeValue (length prot_ids)) ap)) (\<lambda>_.
           andThen (collect_loop env consensus
                      (setValue ''number_of_runs'' (SizeValue (length prot_ids)) ap)
                      (cm_features grouping) []) (\<lambda>pep_ids'.
           andThen (setProteinIdentifications env prot_ids) (\<lambda>prot_ids'.
           store out_file (IdXMLDoc prot_ids' pep_ids'))))))) w1 = (Ok u, w')"
    by (rule andThen_OkE)
  obtain prot_ids pep_ids where a: "a = (prot_ids, pep_ids)" by (cases a)
  from r1[unfolded a prod.case] obtain maps w2 where
    2: "feature_loop pep_ids (build_id_mapping prot_ids 0 Map.empty)
          (replicate (length prot_ids) new_FeatureMap) w1 = (Ok maps, w2)" and
    r2: "andThen (group env (linker_params env rt_delta mz_delta) maps) (\<lambda>grouping.
           andThen (setParameters consensus
                      (setValue ''number_of_runs'' (SizeValue (length prot_ids)) ap)) (\<lambda>_.
           andThen (collect_loop env consensus
                      (setValue ''number_of_runs'' (SizeValue (length prot_ids)) ap)
                      (cm_features grouping) []) (\<lambda>pep_ids'.
           andThen (setProteinIdentifications env prot_ids) (\<lambda>prot_ids'.
           store out_file (IdXMLDoc prot_ids' pep_ids'))))) w2 = (Ok u, w')"
    by (rule andThen_OkE)
  from r2 obtain grouping w3 where
    3: "group env (linker_params env rt_delta mz_delta) maps w2 = (Ok grouping, w3)" and
    r3: "andThen (setParameters consensus
                      (setValue ''number_of_runs'' (SizeValue (length prot_ids)) ap)) (\<lambda>_.
           andThen (collect_loop env consensus
                      (setValue ''number_of_runs'' (SizeValue (length prot_ids)) ap)
                      (cm_features grouping) []) (\<lambda>pep_ids'.
           andThen (setProteinIdentifications env prot_ids) (\<lambda>prot_ids'.
           store out_file (IdXMLDoc prot_ids' pep_ids')))) w3 = (Ok u, w')"
    by (rule andThen_OkE)
  from r3 obtain x w4 where
    4: "setParameters consensus
          (setValue ''number_of_runs'' (SizeValue (length prot_ids)) ap) w3 = (Ok x, w4)" and
    r4: "andThen (collect_loop env consensus
                      (setValue ''number_of_runs'' (SizeValue (length prot_ids)) ap)
                      (cm_features grouping) []) (\<lambda>pep_ids'.
           andThen (setProteinIdentifications env prot_ids) (\<lambda>prot_ids'.
           store out_file (IdXMLDoc prot_ids' pep_ids'))) w4 = (Ok u, w')"
    by (rule andThen_OkE)
  from r4 obtain pep_ids' w5 where
    5: "collect_loop env consensus
          (setValue ''number_of_runs'' (SizeValue (length prot_ids)) ap)
          (cm_features grouping) [] w4 = (Ok pep_ids', w5)" and
    r5: "andThen (setProteinIdentifications env prot_ids) (\<lambda>prot_ids'.
           store out_file (IdXMLDoc prot_ids' pep_ids')) w5 = (Ok u, w')"
    by (rule andThen_OkE)
  have "extends not_clock w w1"
    using extends_IdXMLFile_load[of not_clock w in_file] by (simp add: 1)
  also have "extends not_clock w1 w2"
    using extends_feature_loop[of not_clock w1 pep_ids "build_id_mapping prot_ids 0 Map.empty"
        "replicate (length prot_ids) new_FeatureMap"]
    by (simp add: 2)
  also have "extends not_clock w2 w3"
    using extends_group[of not_clock "linker_params env rt_delta mz_delta" maps w2 env]
    by (simp add: 3)
  also have "extends not_clock w3 w4"
    using extends_setParameters[of not_clock consensus
        "setValue ''number_of_runs'' (SizeValue (length prot_ids)) ap" w3]
    by (simp add: 4)
  also have "extends not_clock w4 w5"
    using extends_collect_loop[of not_clock w4 env consensus
        "setValue ''number_of_runs'' (SizeValue (length prot_ids)) ap" "cm_features grouping" "[]"]
    by (simp add: 5)
  finally have "extends not_clock w w5" .
  from stamp_and_store[OF this r5] show ?thesis
    by (metis doc_protein_ids.simps(1))
qed


lemma featureXML_block_Ok:
  assumes "featureXML_block env consensus ap in_file out_file w = (Ok u, w')"
  shows "\<exists>doc evs. files w' out_file = Some doc \<and>
           doc_protein_ids doc =
             [\<lparr>prot_identifier = [], search_engine = ''OpenMS/ConsensusID'',
               search_engine_version = getVersion env, date_time = now w\<rparr>] \<and>
           trace w' = trace w @ evs @ [DateTimeNow, Store out_file doc] \<and>
           DateTimeNow \<notin> set evs"
proof -
  from assms[unfolded featureXML_block_def] obtain m w1 where
    1: "FeatureXMLFile_load in_file w = (Ok m, w1)" and
    r1: "andThen (setParameters consensus
                (setValue ''ranks:number_of_runs''
                   (SizeValue (length (fm_protein_ids m))) ap)) (\<lambda>_.
         andThen (feature_apply_loop env consensus
                (setValue ''ranks:number_of_runs''
                   (SizeValue (length (fm_protein_ids m))) ap)
                (fm_features m)) (\<lambda>features.
         andThen (setProteinIdentifications env (fm_protein_ids m)) (\<lambda>prot_ids'.
         store out_file
           (FeatureXMLDoc (m\<lparr>fm_features := features, fm_protein_ids := prot_ids'\<rparr>))))) w1
         = (Ok u, w')"
    by (rule andThen_OkE)
  from r1 obtain x w2 where
    2: "setParameters consensus
          (setValue ''ranks:number_of_runs'' (SizeValue (length (fm_protein_ids m))) ap) w1
        = (Ok x, w2)" and
    r2: "andThen (feature_apply_loop env consensus
                (setValue ''ranks:number_of_runs''
                   (SizeValue (length (fm_protein_ids m))) ap)
                (fm_features m)) (\<lambda>features.
         andThen (setProteinIdentifications env (fm_protein_ids m)) (\<lambda>prot_ids'.
         store out_file
           (FeatureXMLDoc (m\<lparr>fm_features := features, fm_protein_ids := prot_ids'\<rparr>)))) w2
         = (Ok u, w')"
    by (rule andThen_OkE)
  from r2 obtain features w3 where
    3: "feature_apply_loop env consensus
          (setValue ''ranks:number_of_runs'' (SizeValue (length (fm_protein_ids m))) ap)
          (fm_features m) w2 = (Ok features, w3)" and
    r3: "andThen (setProteinIdentifications env (fm_protein_ids m)) (\<lambda>prot_ids'.
         store out_file
           (FeatureXMLDoc (m\<lparr>fm_features := features, fm_protein_ids := prot_ids'\<rparr>))) w3
         = (Ok u, w')"
    by (rule andThen_OkE)
  have "extends not_clock w w1"
    using extends_FeatureXMLFile_load[of not_clock w in_file] by (simp add: 1)
  also have "extends not_clock w1 w2"
    using extends_setParameters[of not_clock consensus
        "setValue ''ranks:number_of_runs'' (SizeValue (length (fm_protein_ids m))) ap" w1]
    by (simp add: 2)
  also have "extends not_clock w2 w3"
    using extends_feature_apply_loop[of not_clock w2 env consensus
        "setValue ''ranks:number_of_runs'' (SizeValue (length (fm_protein_ids m))) ap"
        "fm_features m"]
    by (simp add: 3)
  finally have "extends not_clock w w3" .
  from stamp_and_store[OF this r3] obtain evs where
    "files w' out_file =
       Some (FeatureXMLDoc (m\<lparr>fm_features := features, fm_protein_ids :=
         [\<lparr>prot_identifier = [], search_engine = ''OpenMS/ConsensusID'',
           search_engine_version = getVersion env, date_time = now w\<rparr>]\<rparr>))"
    "trace w' = trace w @ evs @
       [DateTimeNow,
        Store out_file (FeatureXMLDoc (m\<lparr>fm_features := features, fm_protein_ids :=
         [\<lparr>prot_identifier = [], search_engine = ''OpenMS/ConsensusID'',
           search_engine_version = getVersion env, date_time = now w\<rparr>]\<rparr>))]"
    "DateTimeNow \<notin> set evs"
    by blast
  then show ?thesis
    by (intro exI[of _ "FeatureXMLDoc (m\<lparr>fm_features := features, fm_protein_ids :=
         [\<lparr>prot_identifier = [], search_engine = ''OpenMS/ConsensusID'',
           search_engine_version = getVersion env, date_time = now w\<rparr>]\<rparr>)"] exI[of _ evs])
      simp
qed

lemma consensusXML_block_Ok:
  assumes "consensusXML_block env consensus ap in_file out_file w = (Ok u, w')"
  shows "\<exists>doc evs. files w' out_file = Some doc \<and>
           doc_protein_ids doc =
             [\<lparr>prot_identifier = [], search_engine = ''OpenMS/ConsensusID'',
               search_engine_version = getVersion env, date_time = now w\<rparr>] \<and>
           trace w' = trace w @ evs @ [DateTimeNow, Store out_file doc] \<and>
           DateTimeNow \<notin> set evs"
proof -
  from assms[unfolded consensusXML_block_def] obtain m w1 where
    1: "ConsensusXMLFile_load in_file w = (Ok m, w1)" and
    r1: "andThen (setParameters consensus
                (setValue ''ranks:number_of_runs''
                   (SizeValue (length (cm_protein_ids m))) ap)) (\<lambda>_.
         andThen (consensus_apply_loop env consensus
                (setValue ''ranks:number_of_runs''
                   (SizeValue (length (cm_protein_ids m))) ap)
                (cm_features m)) (\<lambda>features.
         andThen (setProteinIdentifications env (cm_protein_ids m)) (\<lambda>prot_ids'.
         store out_file
           (ConsensusXMLDoc (m\<lparr>cm_features := features, cm_protein_ids := prot_ids'\<rparr>))))) w1
         = (Ok u, w')"
    by (rule andThen_OkE)
  from r1 obtain x w2 where
    2: "setParameters consensus
          (setValue ''ranks:number_of_runs'' (SizeValue (length (cm_protein_ids m))) ap) w1
        = (Ok x, w2)" and
    r2: "andThen (consensus_apply_loop env consensus
                (setValue ''ranks:number_of_runs''
                   (SizeValue (length (cm_protein_ids m))) ap)
                (cm_features m)) (\<lambda>features.
         andThen (setProteinIdentifications env (cm_protein_ids m)) (\<lambda>prot_ids'.
         store out_file
           (ConsensusXMLDoc (m\<lparr>cm_features := features, cm_protein_ids := prot_ids'\<rparr>)))) w2
         = (Ok u, w')"
    by (rule andThen_OkE)
  from r2 obtain features w3 where
    3: "consensus_apply_loop env consensus
          (setValue ''ranks:number_of_runs'' (SizeValue (length (cm_protein_ids m))) ap)
          (cm_features m) w2 = (Ok features, w3)" and
    r3: "andThen (setProteinIdentifications env (cm_protein_ids m)) (\<lambda>prot_ids'.
         store out_file
           (ConsensusXMLDoc (m\<lparr>cm_features := features, cm_protein_ids := prot_ids'\<rparr>))) w3
         = (Ok u, w')"
    by (rule andThen_OkE)
  have "extends not_clock w w1"
    using extends_ConsensusXMLFile_load[of not_clock w in_file] by (simp add: 1)
  also have "extends not_clock w1 w2"
    using extends_setParameters[of not_clock consensus
        "setValue ''ranks:number_of_runs'' (SizeValue (length (cm_protein_ids m))) ap" w1]
    by (simp add: 2)
  also have "extends not_clock w2 w3"
    using extends_consensus_apply_loop[of not_clock w2 env consensus
        "setValue ''ranks:number_of_runs'' (SizeValue (length (cm_protein_ids m))) ap"
        "cm_features m"]
    by (simp add: 3)
  finally have "extends not_clock w w3" .
  from stamp_and_store[OF this r3] obtain evs where
    "files w' out_file =
       Some (ConsensusXMLDoc (m\<lparr>cm_features := features, cm_protein_ids :=
         [\<lparr>prot_identifier = [], search_engine = ''OpenMS/ConsensusID'',
           search_engine_version = getVersion env, date_time = now w\<rparr>]\<rparr>))"
    "trace w' = trace w @ evs @
       [DateTimeNow,
        Store out_file (ConsensusXMLDoc (m\<lparr>cm_features := features, cm_protein_ids :=
         [\<lparr>prot_identifier = [], search_engine = ''OpenMS/ConsensusID'',
           search_engine_version = getVersion env, date_time = now w\<rparr>]\<rparr>))]"
    "DateTimeNow \<notin> set evs"
    by blast
  then show ?thesis
    by (intro exI[of _ "ConsensusXMLDoc (m\<lparr>cm_features := features, cm_protein_ids :=
         [\<lparr>prot_identifier = [], search_engine = ''OpenMS/ConsensusID'',
           search_engine_version = getVersion env, date_time = now w\<rparr>]\<rparr>)"] exI[of _ evs])
      simp
qed

lemma block_then_return:
  "andThen b (\<lambda>_. pure (Return EXECUTION_OK)) w = (Return EXECUTION_OK, w') \<Longrightarrow>
   (\<exists>u. b w = (Ok u, w')) \<or> b w = (Return EXECUTION_OK, w')"
  by (auto simp: andThen_def pure_def split: prod.splits Outcome.splits)


lemma andThen_pure_Ok_fun: "andThen (pure (Ok a)) f = f a"
  by (rule ext) simp

lemma andThen_ReturnE:
  assumes "andThen m f w = (Return c, w')"
  obtains "m w = (Return c, w')" | a w1 where "m w = (Ok a, w1)" "f a w1 = (Return c, w')"
  using assms by (auto simp: andThen_def split: prod.splits Outcome.splits)

lemma feature_loop_Return:
  "feature_loop peps idm maps w = (Return c, w') \<Longrightarrow> c = INCOMPATIBLE_INPUT_DATA"
  by (induction peps arbitrary: idm maps) (auto split: prod.splits if_splits)

lemma apply_consensus_no_Return [simp]:
  "apply_consensus env consensus ap ids w \<noteq> (Return c, w')"
  by (simp add: apply_consensus_def split: sum.splits)

lemma collect_loop_no_Return [simp]:
  "collect_loop env consensus ap gs acc w \<noteq> (Return c, w')"
proof (induction gs arbitrary: acc w)
  case Nil
  then show ?case by simp
next
  case (Cons g gs)
  from apply_consensus_cases[of env consensus ap "cf_peptide_ids g" w]
  show ?case using Cons.IH by (auto split: list.splits)
qed

lemma feature_apply_loop_no_Return [simp]:
  "feature_apply_loop env consensus ap fs w \<noteq> (Return c, w')"
proof (induction fs arbitrary: w)
  case Nil
  then show ?case by simp
next
  case (Cons g gs)
  from apply_consensus_cases[of env consensus ap "f_peptide_ids g" w]
  show ?case using Cons.IH by (auto split: prod.splits Outcome.splits)
qed

lemma consensus_apply_loop_no_Return [simp]:
  "consensus_apply_loop env consensus ap fs w \<noteq> (Return c, w')"
proof (induction fs arbitrary: w)
  case Nil
  then show ?case by simp
next
  case (Cons g gs)
  from apply_consensus_cases[of env consensus ap "cf_peptide_ids g" w]
  show ?case using Cons.IH by (auto split: prod.splits Outcome.splits)
qed

lemma steps_no_Return [simp]:
  "IdXMLFile_load path w \<noteq> (Return c, w')"
  "FeatureXMLFile_load path w \<noteq> (Return c, w')"
  "ConsensusXMLFile_load path w \<noteq> (Return c, w')"
  "group env ps maps w \<noteq> (Return c, w')"
  "setParameters consensus ap w \<noteq> (Return c, w')"
  "setProteinIdentifications env prot_ids w \<noteq> (Return c, w')"
  "store path doc w \<noteq> (Return c, w')"
  by (simp_all add: IdXMLFile_load_def FeatureXMLFile_load_def ConsensusXMLFile_load_def
      group_def setParameters_def setProteinIdentifications_def store_def
      split: option.splits Document.splits sum.splits)

lemma idXML_block_Return:
  "idXML_block env consensus ap in_file out_file rt_delta mz_delta w = (Return c, w') \<Longrightarrow>
   c = INCOMPATIBLE_INPUT_DATA"
  unfolding idXML_block_def
  by (auto elim!: andThen_ReturnE dest: feature_loop_Return split: prod.splits)

lemma featureXML_block_no_Return:
  "featureXML_block env consensus ap in_file out_file w \<noteq> (Return c, w')"
  unfolding featureXML_block_def
  by (auto elim!: andThen_ReturnE)

lemma consensusXML_block_no_Return:
  "consensusXML_block env consensus ap in_file out_file w \<noteq> (Return c, w')"
  unfolding consensusXML_block_def
  by (auto elim!: andThen_ReturnE)

lemma forget_time_now [simp]: "forget_time (w\<lparr>now := t\<rparr>) = forget_time w"
  by (simp add: forget_time_def)

lemma emit_now [simp]: "emit e (w\<lparr>now := t\<rparr>) = (emit e w)\<lparr>now := t\<rparr>"
  by (simp add: emit_def)

lemma ignores_clockD:
  "ignores_clock m \<Longrightarrow> m (w\<lparr>now := t\<rparr>) = (fst (m w), (snd (m w))\<lparr>now := t\<rparr>)"
  by (simp add: ignores_clock_def)

lemma ignores_clock_andThen:
  assumes "ignores_clock m" and "\<And>a. ignores_clock (f a)"
  shows "ignores_clock (andThen m f)"
  unfolding ignores_clock_def
proof (intro allI)
  fix w t
  obtain r w1 where mw: "m w = (r, w1)" by (cases "m w")
  have mt: "m (w\<lparr>now := t\<rparr>) = (r, w1\<lparr>now := t\<rparr>)"
    using ignores_clockD[OF assms(1), where w = w and t = t] mw by simp
  show "andThen m f (w\<lparr>now := t\<rparr>) = (fst (andThen m f w), (snd (andThen m f w))\<lparr>now := t\<rparr>)"
    using mw mt ignores_clockD[OF assms(2), where w = w1 and t = t]
    by (cases r) (simp_all add: andThen_def)
qed

lemma ignores_clock_same: "ignores_clock m \<Longrightarrow> same_up_to_time m"
  by (simp add: ignores_clock_def same_up_to_time_def)

lemma same_up_to_time_andThen:
  assumes "ignores_clock m" and "\<And>a. same_up_to_time (f a)"
  shows "same_up_to_time (andThen m f)"
  unfolding same_up_to_time_def
proof (intro allI)
  fix w t1 t2
  obtain r w1 where mw: "m w = (r, w1)" by (cases "m w")
  have m1: "m (w\<lparr>now := t1\<rparr>) = (r, w1\<lparr>now := t1\<rparr>)"
    and m2: "m (w\<lparr>now := t2\<rparr>) = (r, w1\<lparr>now := t2\<rparr>)"
    using ignores_clockD[OF assms(1), where w = w] mw by simp_all
  show "fst (andThen m f (w\<lparr>now := t1\<rparr>)) = fst (andThen m f (w\<lparr>now := t2\<rparr>)) \<and>
        forget_time (snd (andThen m f (w\<lparr>now := t1\<rparr>))) =
        forget_time (snd (andThen m f (w\<lparr>now := t2\<rparr>)))"
  proof (cases r)
    case (Ok a)
    from assms(2)[of a] have
      "fst (f a (w1\<lparr>now := t1\<rparr>)) = fst (f a (w1\<lparr>now := t2\<rparr>)) \<and>
       forget_time (snd (f a (w1\<lparr>now := t1\<rparr>))) = forget_time (snd (f a (w1\<lparr>now := t2\<rparr>)))"
      by (simp add: same_up_to_time_def)
    then show ?thesis using m1 m2 Ok by (simp add: andThen_def)
  qed (simp_all add: andThen_def m1 m2)
qed

lemma same_up_to_time_then_return:
  assumes "same_up_to_time b"
  shows "same_up_to_time (andThen b (\<lambda>_. pure r))"
  unfolding same_up_to_time_def
proof (intro allI)
  fix w t1 t2
  obtain r1 w1 where b1: "b (w\<lparr>now := t1\<rparr>) = (r1, w1)" by (cases "b (w\<lparr>now := t1\<rparr>)")
  obtain r2 w2 where b2: "b (w\<lparr>now := t2\<rparr>) = (r2, w2)" by (cases "b (w\<lparr>now := t2\<rparr>)")
  from assms have "fst (b (w\<lparr>now := t1\<rparr>)) = fst (b (w\<lparr>now := t2\<rparr>)) \<and>
      forget_time (snd (b (w\<lparr>now := t1\<rparr>))) = forget_time (snd (b (w\<lparr>now := t2\<rparr>)))"
    by (simp add: same_up_to_time_def)
  then have "r1 = r2" "forget_time w1 = forget_time w2"
    using b1 b2 by simp_all
  then show "fst (andThen b (\<lambda>_. pure r) (w\<lparr>now := t1\<rparr>)) =
             fst (andThen b (\<lambda>_. pure r) (w\<lparr>now := t2\<rparr>)) \<and>
        forget_time (snd (andThen b (\<lambda>_. pure r) (w\<lparr>now := t1\<rparr>))) =
        forget_time (snd (andThen b (\<lambda>_. pure r) (w\<lparr>now := t2\<rparr>)))"
    using b1 b2 by (cases r2) (simp_all add: andThen_def pure_def)
qed

lemma ignores_clock_steps [simp]:
  "ignores_clock (pure r)"
  "ignores_clock (IdXMLFile_load path)"
  "ignores_clock (FeatureXMLFile_load path)"
  "ignores_clock (ConsensusXMLFile_load path)"
  "ignores_clock (group env ps maps)"
  "ignores_clock (setParameters consensus ap)"
  "ignores_clock (apply_consensus env consensus ap ids)"
  by (simp_all add: ignores_clock_def pure_def IdXMLFile_load_def FeatureXMLFile_load_def
      ConsensusXMLFile_load_def group_def setParameters_def apply_consensus_def
      split: option.splits Document.splits sum.splits)

lemma apply_consensus_now:
  "apply_consensus env consensus ap ids (w\<lparr>now := t\<rparr>) =
     (fst (apply_consensus env consensus ap ids w),
      (snd (apply_consensus env consensus ap ids w))\<lparr>now := t\<rparr>)"
  by (simp add: apply_consensus_def split: sum.splits)

lemma ignores_clock_feature_loop [simp]: "ignores_clock (feature_loop peps idm maps)"
  unfolding ignores_clock_def
  by (induction peps arbitrary: idm maps) (auto split: prod.splits)

lemma ignores_clock_collect_loop [simp]: "ignores_clock (collect_loop env consensus ap gs acc)"
  unfolding ignores_clock_def
proof (induction gs arbitrary: acc)
  case Nil
  then show ?case by simp
next
  case (Cons g gs)
  show ?case
  proof (intro allI)
    fix w t
    from apply_consensus_cases[of env consensus ap "cf_peptide_ids g" w]
    show "collect_loop env consensus ap (g # gs) acc (w\<lparr>now := t\<rparr>) =
       (fst (collect_loop env consensus ap (g # gs) acc w),
        (snd (collect_loop env consensus ap (g # gs) acc w))\<lparr>now := t\<rparr>)"
      using Cons.IH apply_consensus_now[where env = env and consensus = consensus and ap = ap and ids = "cf_peptide_ids g" and w = w and t = t]
      by (auto split: list.splits)
  qed
qed

lemma ignores_clock_feature_apply_loop [simp]:
  "ignores_clock (feature_apply_loop env consensus ap fs)"
  unfolding ignores_clock_def
proof (induction fs)
  case Nil
  then show ?case by simp
next
  case (Cons g gs)
  show ?case
  proof (intro allI)
    fix w t
    from apply_consensus_cases[of env consensus ap "f_peptide_ids g" w]
    show "feature_apply_loop env consensus ap (g # gs) (w\<lparr>now := t\<rparr>) =
       (fst (feature_apply_loop env consensus ap (g # gs) w),
        (snd (feature_apply_loop env consensus ap (g # gs) w))\<lparr>now := t\<rparr>)"
      using Cons.IH apply_consensus_now[where env = env and consensus = consensus and ap = ap and ids = "f_peptide_ids g" and w = w and t = t]
      by (auto split: prod.splits Outcome.splits)
  qed
qed

lemma ignores_clock_consensus_apply_loop [simp]:
  "ignores_clock (consensus_apply_loop env consensus ap fs)"
  unfolding ignores_clock_def
proof (induction fs)
  case Nil
  then show ?case by simp
next
  case (Cons g gs)
  show ?case
  proof (intro allI)
    fix w t
    from apply_consensus_cases[of env consensus ap "cf_peptide_ids g" w]
    show "consensus_apply_loop env consensus ap (g # gs) (w\<lparr>now := t\<rparr>) =
       (fst (consensus_apply_loop env consensus ap (g # gs) w),
        (snd (consensus_apply_loop env consensus ap (g # gs) w))\<lparr>now := t\<rparr>)"
      using Cons.IH apply_consensus_now[where env = env and consensus = consensus and ap = ap and ids = "cf_peptide_ids g" and w = w and t = t]
      by (auto split: prod.splits Outcome.splits)
  qed
qed

lemma same_stamp_and_store:
  assumes "\<And>t1 t2.
     forget_doc (D [new_ProteinIdentification\<lparr>date_time := t1,
        search_engine := ''OpenMS/ConsensusID'', search_engine_version := getVersion env\<rparr>]) =
     forget_doc (D [new_ProteinIdentification\<lparr>date_time := t2,
        search_engine := ''OpenMS/ConsensusID'', search_engine_version := getVersion env\<rparr>])"
  shows "same_up_to_time
     (andThen (setProteinIdentifications env prot_ids) (\<lambda>prot_ids'. store out_file (D prot_ids')))"
  unfolding same_up_to_time_def
  using assms
  by (auto simp: andThen_def setProteinIdentifications_def store_def emit_def forget_time_def
      fun_eq_iff)


lemma same_idXML_block:
  "same_up_to_time (idXML_block env consensus ap in_file out_file rt_delta mz_delta)"
  unfolding idXML_block_def
  by (intro same_up_to_time_andThen same_stamp_and_store allI impI
      | simp add: erase_time_def new_ProteinIdentification_def split: prod.splits)+

lemma same_featureXML_block:
  "same_up_to_time (featureXML_block env consensus ap in_file out_file)"
  unfolding featureXML_block_def
  by (intro same_up_to_time_andThen same_stamp_and_store allI impI
      | simp add: erase_time_def new_ProteinIdentification_def split: prod.splits)+

lemma same_consensusXML_block:
  "same_up_to_time (consensusXML_block env consensus ap in_file out_file)"
  unfolding consensusXML_block_def
  by (intro same_up_to_time_andThen same_stamp_and_store allI impI
      | simp add: erase_time_def new_ProteinIdentification_def split: prod.splits)+

lemma same_up_to_timeD:
  "same_up_to_time m \<Longrightarrow>
   fst (m (w\<lparr>now := t1\<rparr>)) = fst (m (w\<lparr>now := t2\<rparr>)) \<and>
   forget_time (snd (m (w\<lparr>now := t1\<rparr>))) = forget_time (snd (m (w\<lparr>now := t2\<rparr>)))"
  by (simp add: same_up_to_time_def)

lemma main_missing_coordinate:
  assumes "getStringOption registerOptionsAndFlags param ''in'' = Ok in_file"
    and "getStringOption registerOptionsAndFlags param ''out'' = Ok out_file"
    and "getDoubleOption registerOptionsAndFlags param ''rt_delta'' = Ok rt_delta"
    and "getDoubleOption registerOptionsAndFlags param ''mz_delta'' = Ok mz_delta"
    and "getStringOption registerOptionsAndFlags param ''algorithm'' = Ok algorithm"
    and "getIntOption registerOptionsAndFlags param ''considered_hits'' = Ok considered_hits"
    and "getType env (files w) in_file = IDXML"
    and "files w in_file = Some (IdXMLDoc prot_ids pep_ids)"
    and "prot_ids \<noteq> []"
    and "\<exists>p \<in> set pep_ids. \<not> hasRT p \<or> \<not> hasMZ p"
  shows "TOPPConsensusID_main env param w =
      (Return INCOMPATIBLE_INPUT_DATA,
       emit (LogFatalError (pep_identifier
          (hd (filter (\<lambda>p. \<not> hasRT p \<or> \<not> hasMZ p) pep_ids)))) w)"
proof -
  obtain consensus algo_param0 where sel: "select_algorithm param algorithm = (consensus, algo_param0)"
    by (cases "select_algorithm param algorithm")
  let ?maps = "replicate (length prot_ids) new_FeatureMap"
  have bound: "\<And>k v. build_id_mapping prot_ids 0 Map.empty k = Some v \<Longrightarrow> v < length ?maps"
    using build_id_mapping_bound[of Map.empty 0 prot_ids] by simp
  have loop: "feature_loop pep_ids (build_id_mapping prot_ids 0 Map.empty) ?maps w =
      (Return INCOMPATIBLE_INPUT_DATA,
       emit (LogFatalError (pep_identifier
          (hd (filter (\<lambda>p. \<not> hasRT p \<or> \<not> hasMZ p) pep_ids)))) w)"
    using assms(9,10) bound by (intro feature_loop_bad) auto
  show ?thesis
    unfolding main_unfold[OF assms(1-6) sel]
    using assms(7,8) loop
    by (simp add: idXML_block_def andThen_def IdXMLFile_load_def)
qed

lemmas pregrouped_eval = feature_world_def feature_param_def consensus_world_def
  consensus_param_def

lemmas run_eval = TOPPConsensusID_main_def andThen_def pure_def
  idXML_block_def featureXML_block_def consensusXML_block_def
  IdXMLFile_load_def FeatureXMLFile_load_def ConsensusXMLFile_load_def
  group_def setParameters_def apply_consensus_def emit_def
  setProteinIdentifications_def store_def new_ProteinIdentification_def

lemmas no_rt_eval = pep_no_rt_def feature_world_no_rt_def consensus_world_no_rt_def

lemma snd_andThen_pure: "snd (andThen b (\<lambda>_. pure r) w) = snd (b w)"
  by (auto simp: andThen_def pure_def split: prod.splits Outcome.splits)

lemma extends_any_trace:
  "extends (\<lambda>_. True) w w' \<Longrightarrow> \<exists>evs. trace w' = trace w @ evs"
  by (auto simp: extends_def)

lemma feature_apply_loop_starts:
  "\<exists>evs. trace (snd (feature_apply_loop env consensus ap fs w)) =
     trace w @ map ConsensusApply (map f_peptide_ids (take 1 fs)) @ evs"
proof (cases fs)
  case Nil
  then show ?thesis by simp
next
  case (Cons x xs)
  let ?w1 = "emit (ConsensusApply (f_peptide_ids x)) w"
  from apply_consensus_cases[of env consensus ap "f_peptide_ids x" w]
  show ?thesis
  proof (elim disjE exE)
    fix ids' assume a: "apply_consensus env consensus ap (f_peptide_ids x) w = (Ok ids', ?w1)"
    have "extends (\<lambda>_. True) ?w1 (snd (feature_apply_loop env consensus ap xs ?w1))"
      by (rule extends_feature_apply_loop) simp
    then obtain evs where
      "trace (snd (feature_apply_loop env consensus ap xs ?w1)) = trace ?w1 @ evs"
      by (auto dest: extends_any_trace)
    then show ?thesis
      using a Cons by (auto simp: emit_def split: prod.splits Outcome.splits)
  next
    fix ex assume "apply_consensus env consensus ap (f_peptide_ids x) w = (Throw ex, ?w1)"
    then show ?thesis using Cons by (simp add: emit_def)
  qed
qed

lemma consensus_apply_loop_starts:
  "\<exists>evs. trace (snd (consensus_apply_loop env consensus ap fs w)) =
     trace w @ map ConsensusApply (map cf_peptide_ids (take 1 fs)) @ evs"
proof (cases fs)
  case Nil
  then show ?thesis by simp
next
  case (Cons x xs)
  let ?w1 = "emit (ConsensusApply (cf_peptide_ids x)) w"
  from apply_consensus_cases[of env consensus ap "cf_peptide_ids x" w]
  show ?thesis
  proof (elim disjE exE)
    fix ids' assume a: "apply_consensus env consensus ap (cf_peptide_ids x) w = (Ok ids', ?w1)"
    have "extends (\<lambda>_. True) ?w1 (snd (consensus_apply_loop env consensus ap xs ?w1))"
      by (rule extends_consensus_apply_loop) simp
    then obtain evs where
      "trace (snd (consensus_apply_loop env consensus ap xs ?w1)) = trace ?w1 @ evs"
      by (auto dest: extends_any_trace)
    then show ?thesis
      using a Cons by (auto simp: emit_def split: prod.splits Outcome.splits)
  next
    fix ex assume "apply_consensus env consensus ap (cf_peptide_ids x) w = (Throw ex, ?w1)"
    then show ?thesis using Cons by (simp add: emit_def)
  qed
qed

lemma andThen_trace_after:
  assumes "\<exists>evs. trace (snd (m w)) = trace w @ pre @ evs"
    and "\<And>a w1. extends (\<lambda>_. True) w1 (snd (f a w1))"
  shows "\<exists>evs. trace (snd (andThen m f w)) = trace w @ pre @ evs"
proof (cases "m w")
  case (Pair r w1)
  from assms(1) Pair obtain evs where evs: "trace w1 = trace w @ pre @ evs" by auto
  show ?thesis
  proof (cases r)
    case (Ok a)
    from assms(2)[of w1 a] obtain evs' where "trace (snd (f a w1)) = trace w1 @ evs'"
      by (auto dest: extends_any_trace)
    then show ?thesis using Pair Ok evs by (simp add: andThen_def)
  qed (use Pair evs in \<open>simp_all add: andThen_def\<close>)
qed

lemma featureXML_block_scores:
  assumes load: "files w in_file = Some (FeatureXMLDoc m)"
  shows "\<exists>evs. trace (snd (featureXML_block env consensus ap in_file out_file w)) =
     trace w @
     (ConsensusSetParameters consensus
        (setValue ''ranks:number_of_runs'' (SizeValue (length (fm_protein_ids m))) ap) #
      map ConsensusApply (map f_peptide_ids (take 1 (fm_features m)))) @ evs"
proof -
  let ?ap = "setValue ''ranks:number_of_runs'' (SizeValue (length (fm_protein_ids m))) ap"
  let ?w1 = "emit (ConsensusSetParameters consensus ?ap) w"
  let ?rest = "andThen (feature_apply_loop env consensus ?ap (fm_features m)) (\<lambda>features.
         andThen (setProteinIdentifications env (fm_protein_ids m)) (\<lambda>prot_ids'.
         store out_file
           (FeatureXMLDoc (m\<lparr>fm_features := features, fm_protein_ids := prot_ids'\<rparr>))))"
  have block: "featureXML_block env consensus ap in_file out_file w = ?rest ?w1"
    using load
    by (simp add: featureXML_block_def andThen_def FeatureXMLFile_load_def setParameters_def)
  have "\<exists>evs. trace (snd (?rest ?w1)) =
      trace ?w1 @ map ConsensusApply (map f_peptide_ids (take 1 (fm_features m))) @ evs"
    by (intro andThen_trace_after feature_apply_loop_starts extends_andThen
        extends_setProteinIdentifications extends_store) simp_all
  then show ?thesis by (simp add: block emit_def)
qed

lemma consensusXML_block_scores:
  assumes load: "files w in_file = Some (ConsensusXMLDoc m)"
  shows "\<exists>evs. trace (snd (consensusXML_block env consensus ap in_file out_file w)) =
     trace w @
     (ConsensusSetParameters consensus
        (setValue ''ranks:number_of_runs'' (SizeValue (length (cm_protein_ids m))) ap) #
      map ConsensusApply (map cf_peptide_ids (take 1 (cm_features m)))) @ evs"
proof -
  let ?ap = "setValue ''ranks:number_of_runs'' (SizeValue (length (cm_protein_ids m))) ap"
  let ?w1 = "emit (ConsensusSetParameters consensus ?ap) w"
  let ?rest = "andThen (consensus_apply_loop env consensus ?ap (cm_features m)) (\<lambda>features.
         andThen (setProteinIdentifications env (cm_protein_ids m)) (\<lambda>prot_ids'.
         store out_file
           (ConsensusXMLDoc (m\<lparr>cm_features := features, cm_protein_ids := prot_ids'\<rparr>))))"
  have block: "consensusXML_block env consensus ap in_file out_file w = ?rest ?w1"
    using load
    by (simp add: consensusXML_block_def andThen_def ConsensusXMLFile_load_def setParameters_def)
  have "\<exists>evs. trace (snd (?rest ?w1)) =
      trace ?w1 @ map ConsensusApply (map cf_peptide_ids (take 1 (cm_features m))) @ evs"
    by (intro andThen_trace_after consensus_apply_loop_starts extends_andThen
        extends_setProteinIdentifications extends_store) simp_all
  then show ?thesis by (simp add: block emit_def)
qed

lemma featureXML_block_success:
  assumes load: "files w in_file = Some (FeatureXMLDoc m)"
    and sc: "\<forall>f \<in> set (fm_features m).
               consensus_apply env consensus
                 (setValue ''ranks:number_of_runs'' (SizeValue (length (fm_protein_ids m))) ap)
                 (f_peptide_ids f) = Inr (scored f)"
  shows "featureXML_block env consensus ap in_file out_file w =
     (Ok (),
      w\<lparr>files := (files w)(out_file \<mapsto>
           FeatureXMLDoc
             (m\<lparr>fm_features := map (\<lambda>f. f\<lparr>f_peptide_ids := scored f\<rparr>) (fm_features m),
                fm_protein_ids :=
                  [\<lparr>prot_identifier = [], search_engine = ''OpenMS/ConsensusID'',
                    search_engine_version = getVersion env, date_time = now w\<rparr>]\<rparr>)),
        trace := trace w @
          [ConsensusSetParameters consensus
             (setValue ''ranks:number_of_runs'' (SizeValue (length (fm_protein_ids m))) ap)] @
          map (\<lambda>f. ConsensusApply (f_peptide_ids f)) (fm_features m) @
          [DateTimeNow,
           Store out_file
             (FeatureXMLDoc
               (m\<lparr>fm_features := map (\<lambda>f. f\<lparr>f_peptide_ids := scored f\<rparr>) (fm_features m),
                  fm_protein_ids :=
                    [\<lparr>prot_identifier = [], search_engine = ''OpenMS/ConsensusID'',
                      search_engine_version = getVersion env, date_time = now w\<rparr>]\<rparr>))]\<rparr>)"
proof -
  have 1: "FeatureXMLFile_load in_file w = (Ok m, w)"
    using load by (simp add: FeatureXMLFile_load_def)
  show ?thesis
    unfolding featureXML_block_def
    by (simp add: andThen_def 1 feature_apply_loop_ok[OF sc] setParameters_def
        setProteinIdentifications_def store_def emit_def new_ProteinIdentification_def)
qed

lemma consensusXML_block_success:
  assumes load: "files w in_file = Some (ConsensusXMLDoc m)"
    and sc: "\<forall>f \<in> set (cm_features m).
               consensus_apply env consensus
                 (setValue ''ranks:number_of_runs'' (SizeValue (length (cm_protein_ids m))) ap)
                 (cf_peptide_ids f) = Inr (scored f)"
  shows "consensusXML_block env consensus ap in_file out_file w =
     (Ok (),
      w\<lparr>files := (files w)(out_file \<mapsto>
           ConsensusXMLDoc
             (m\<lparr>cm_features := map (\<lambda>f. f\<lparr>cf_peptide_ids := scored f\<rparr>) (cm_features m),
                cm_protein_ids :=
                  [\<lparr>prot_identifier = [], search_engine = ''OpenMS/ConsensusID'',
                    search_engine_version = getVersion env, date_time = now w\<rparr>]\<rparr>)),
        trace := trace w @
          [ConsensusSetParameters consensus
             (setValue ''ranks:number_of_runs'' (SizeValue (length (cm_protein_ids m))) ap)] @
          map (\<lambda>f. ConsensusApply (cf_peptide_ids f)) (cm_features m) @
          [DateTimeNow,
           Store out_file
             (ConsensusXMLDoc
               (m\<lparr>cm_features := map (\<lambda>f. f\<lparr>cf_peptide_ids := scored f\<rparr>) (cm_features m),
                  cm_protein_ids :=
                    [\<lparr>prot_identifier = [], search_engine = ''OpenMS/ConsensusID'',
                      search_engine_version = getVersion env, date_time = now w\<rparr>]\<rparr>))]\<rparr>)"
proof -
  have 1: "ConsensusXMLFile_load in_file w = (Ok m, w)"
    using load by (simp add: ConsensusXMLFile_load_def)
  show ?thesis
    unfolding consensusXML_block_def
    by (simp add: andThen_def 1 consensus_apply_loop_ok[OF sc] setParameters_def
        setProteinIdentifications_def store_def emit_def new_ProteinIdentification_def)
qed

lemma main_not_flat_Return:
  assumes "getStringOption registerOptionsAndFlags param ''in'' = Ok in_file"
    and "getType env (files w) in_file \<noteq> IDXML"
    and "TOPPConsensusID_main env param w = (Return c, w')"
  shows "c = EXECUTION_OK"
proof (cases rule: main_getter_cases[of param])
  case (throw e)
  then show ?thesis using assms(3) by simp
next
  case (ok in_file' out_file rt_delta mz_delta algorithm considered_hits)
  obtain consensus algo_param0 where
    sel: "select_algorithm param algorithm = (consensus, algo_param0)"
    by (cases "select_algorithm param algorithm")
  have io: "in_file' = in_file"
    using ok(1) assms(1) by simp
  note unfold = main_unfold[OF ok sel, of env w, unfolded io]
  from assms(3)[unfolded unfold] assms(2) show ?thesis
    by (auto simp: pure_def featureXML_block_no_Return consensusXML_block_no_Return
        elim!: andThen_ReturnE split: if_splits)
qed

subsection \<open>Missing coordinates in flat input\<close>

text \<open>
  Claim C1. For idXML input, when some peptide identification has no RT or no m/z, the run
  returns \<^verbatim>\<open>INCOMPATIBLE_INPUT_DATA\<close>; the only effect is the fatal log message
  naming the run of the first such identification: no file is written, the linker and the
  scorer are never called. The options are readable and the file is an idXML document with
  at least one identification run (in idXML every peptide identification is nested in a
  run, which is what keeps \<^verbatim>\<open>maps[id_mapping[run_id]]\<close> inside the vector for the
  identifications that come before the incomplete one).
\<close>

theorem C1_flat_missing_coordinate_aborts:
  assumes "getStringOption registerOptionsAndFlags param ''in'' = Ok in_file"
    and "getStringOption registerOptionsAndFlags param ''out'' = Ok out_file"
    and "getDoubleOption registerOptionsAndFlags param ''rt_delta'' = Ok rt_delta"
    and "getDoubleOption registerOptionsAndFlags param ''mz_delta'' = Ok mz_delta"
    and "getStringOption registerOptionsAndFlags param ''algorithm'' = Ok algorithm"
    and "getIntOption registerOptionsAndFlags param ''considered_hits'' = Ok considered_hits"
    and "getType env (files w) in_file = IDXML"
    and "files w in_file = Some (IdXMLDoc prot_ids pep_ids)"
    and "prot_ids \<noteq> []"
    and "\<exists>p \<in> set pep_ids. \<not> hasRT p \<or> \<not> hasMZ p"
  shows "fst (TOPPConsensusID_main env param w) = Return INCOMPATIBLE_INPUT_DATA \<and>
         files (snd (TOPPConsensusID_main env param w)) = files w \<and>
         trace (snd (TOPPConsensusID_main env param w)) =
           trace w @ [LogFatalError (pep_identifier
                        (hd (filter (\<lambda>p. \<not> hasRT p \<or> \<not> hasMZ p) pep_ids)))]"
proof -
  let ?run_id = "pep_identifier (hd (filter (\<lambda>p. \<not> hasRT p \<or> \<not> hasMZ p) pep_ids))"
  have run: "TOPPConsensusID_main env param w =
      (Return INCOMPATIBLE_INPUT_DATA, emit (LogFatalError ?run_id) w)"
    by (rule main_missing_coordinate[OF assms])
  have "files (emit (LogFatalError ?run_id) w) = files w"
    and "trace (emit (LogFatalError ?run_id) w) = trace w @ [LogFatalError ?run_id]"
    by (simp_all add: emit_def)
  with run show ?thesis by simp
qed

theorem C1_witness:
  "fst (TOPPConsensusID_main example_env flat_param flat_world_no_mz) = Return INCOMPATIBLE_INPUT_DATA \<and>
   files (snd (TOPPConsensusID_main example_env flat_param flat_world_no_mz)) = files flat_world_no_mz \<and>
   trace (snd (TOPPConsensusID_main example_env flat_param flat_world_no_mz)) = [LogFatalError ''run1'']"
  using C1_flat_missing_coordinate_aborts [of flat_param "''in.idXML''" "''out.idXML''"
      "Val (1 / 10)" "Val (1 / 10)" "''best''" 10 example_env flat_world_no_mz
      "[run1, run2]" "[pepA, pep_no_mz, pepB]"]
  by (simp add: option_eval example_eval hasRT_def hasMZ_def)

subsection \<open>Input of another type\<close>

text \<open>
  Claim C10. When the type of the input file is none of idXML, featureXML and
  consensusXML, none of the three blocks runs: \<^verbatim>\<open>main_\<close> returns
  \<^verbatim>\<open>EXECUTION_OK\<close> and leaves the world as it was (no file written, no call to the
  linker or the scorer), once the options have been read.
\<close>

theorem C10_unknown_type_is_success:
  assumes "getStringOption registerOptionsAndFlags param ''in'' = Ok in_file"
    and "getStringOption registerOptionsAndFlags param ''out'' = Ok out_file"
    and "getDoubleOption registerOptionsAndFlags param ''rt_delta'' = Ok rt_delta"
    and "getDoubleOption registerOptionsAndFlags param ''mz_delta'' = Ok mz_delta"
    and "getStringOption registerOptionsAndFlags param ''algorithm'' = Ok algorithm"
    and "getIntOption registerOptionsAndFlags param ''considered_hits'' = Ok considered_hits"
    and "getType env (files w) in_file \<noteq> IDXML"
    and "getType env (files w) in_file \<noteq> FEATUREXML"
    and "getType env (files w) in_file \<noteq> CONSENSUSXML"
  shows "TOPPConsensusID_main env param w = (Return EXECUTION_OK, w)"
proof -
  obtain consensus algo_param0 where sel: "select_algorithm param algorithm = (consensus, algo_param0)"
    by (cases "select_algorithm param algorithm")
  show ?thesis
    unfolding main_unfold[OF assms(1-6) sel]
    using assms(7-9) by (simp add: pure_def)
qed

theorem C10_witness:
  "TOPPConsensusID_main example_env other_param flat_world = (Return EXECUTION_OK, flat_world)"
  using C10_unknown_type_is_success [of other_param "''in.mzML''" "''out.idXML''"
      "Val (1 / 10)" "Val (1 / 10)" "''best''" 10 example_env flat_world]
  by (simp add: option_eval example_eval)

subsection \<open>What the flat path writes\<close>

text \<open>
  Claim C4. On the idXML path, when the feature maps are built, the linker returns a
  grouping and the scorer returns a list \<open>scored g\<close> for every group \<open>g\<close>, the run
  succeeds and the peptide identifications written to the output are, in the order of the
  groups, the first identification of \<open>scored g\<close> for each group whose list is not
  empty, with RT and m/z replaced by the RT and m/z of the group.
\<close>

theorem C4_flat_output_is_first_hit_per_group:
  assumes "getStringOption registerOptionsAndFlags param ''in'' = Ok in_file"
    and "getStringOption registerOptionsAndFlags param ''out'' = Ok out_file"
    and "getDoubleOption registerOptionsAndFlags param ''rt_delta'' = Ok rt_delta"
    and "getDoubleOption registerOptionsAndFlags param ''mz_delta'' = Ok mz_delta"
    and "getStringOption registerOptionsAndFlags param ''algorithm'' = Ok algorithm"
    and "getIntOption registerOptionsAndFlags param ''considered_hits'' = Ok considered_hits"
    and "select_algorithm param algorithm = (consensus, algo_param0)"
    and "getType env (files w) in_file = IDXML"
    and "files w in_file = Some (IdXMLDoc prot_ids pep_ids)"
    and "feature_loop pep_ids (build_id_mapping prot_ids 0 Map.empty)
           (replicate (length prot_ids) new_FeatureMap) w = (Ok maps, w)"
    and "linker_group env (linker_params env rt_delta mz_delta) maps = Inr grouping"
    and "\<forall>g \<in> set (cm_features grouping).
           consensus_apply env consensus
             (setValue ''number_of_runs'' (SizeValue (length prot_ids))
                (setValue ''considered_hits'' (IntValue considered_hits) algo_param0))
             (cf_peptide_ids g) = Inr (scored g)"
  shows "fst (TOPPConsensusID_main env param w) = Return EXECUTION_OK \<and>
         (\<exists>prot_ids'. files (snd (TOPPConsensusID_main env param w)) out_file =
            Some (IdXMLDoc prot_ids'
              (map (\<lambda>g. (hd (scored g))\<lparr>pep_rt := cf_rt g, pep_mz := cf_mz g\<rparr>)
                 (filter (\<lambda>g. scored g \<noteq> []) (cm_features grouping)))))"
proof -
  note block = idXML_block_success[OF assms(9-12), of out_file]
  show ?thesis
    unfolding main_unfold[OF assms(1-7)]
    using assms(8) by (simp add: andThen_def block pure_def)
qed

theorem C4_witness:
  "fst (TOPPConsensusID_main example_env flat_param flat_world) = Return EXECUTION_OK \<and>
   (\<exists>prot_ids'. files (snd (TOPPConsensusID_main example_env flat_param flat_world)) ''out.idXML'' =
      Some (IdXMLDoc prot_ids' [pepA, pepB]))"
  using C4_flat_output_is_first_hit_per_group [where param = flat_param
      and in_file = "''in.idXML''" and out_file = "''out.idXML''"
      and rt_delta = "Val (1 / 10)" and mz_delta = "Val (1 / 10)" and algorithm = "''best''"
      and considered_hits = 10 and consensus = Best and ?algo_param0.0 = "[]"
      and env = example_env and w = flat_world and prot_ids = "[run1, run2]"
      and pep_ids = "[pepA, pep_no_hits, pepB]" and maps = flat_maps
      and grouping = flat_grouping
      and scored = "\<lambda>g. filter (\<lambda>p. hits p \<noteq> []) (cf_peptide_ids g)"]
  by (simp add: option_eval example_eval flat_eval)

text \<open>
  Claim C9. Under the same conditions each group contributes to the output no entry when
  its scored list is empty and exactly one entry otherwise, and the run still returns
  \<^verbatim>\<open>EXECUTION_OK\<close>: an empty result is not an error.
\<close>

theorem C9_empty_group_is_dropped:
  assumes "getStringOption registerOptionsAndFlags param ''in'' = Ok in_file"
    and "getStringOption registerOptionsAndFlags param ''out'' = Ok out_file"
    and "getDoubleOption registerOptionsAndFlags param ''rt_delta'' = Ok rt_delta"
    and "getDoubleOption registerOptionsAndFlags param ''mz_delta'' = Ok mz_delta"
    and "getStringOption registerOptionsAndFlags param ''algorithm'' = Ok algorithm"
    and "getIntOption registerOptionsAndFlags param ''considered_hits'' = Ok considered_hits"
    and "select_algorithm param algorithm = (consensus, algo_param0)"
    and "getType env (files w) in_file = IDXML"
    and "files w in_file = Some (IdXMLDoc prot_ids pep_ids)"
    and "feature_loop pep_ids (build_id_mapping prot_ids 0 Map.empty)
           (replicate (length prot_ids) new_FeatureMap) w = (Ok maps, w)"
    and "linker_group env (linker_params env rt_delta mz_delta) maps = Inr grouping"
    and "\<forall>g \<in> set (cm_features grouping).
           consensus_apply env consensus
             (setValue ''number_of_runs'' (SizeValue (length prot_ids))
                (setValue ''considered_hits'' (IntValue considered_hits) algo_param0))
             (cf_peptide_ids g) = Inr (scored g)"
  shows "fst (TOPPConsensusID_main env param w) = Return EXECUTION_OK \<and>
         (\<exists>prot_ids'. files (snd (TOPPConsensusID_main env param w)) out_file =
            Some (IdXMLDoc prot_ids'
              (concat (map (\<lambda>g. case scored g of
                                  [] \<Rightarrow> []
                                | pep_id # _ \<Rightarrow> [pep_id\<lparr>pep_rt := cf_rt g, pep_mz := cf_mz g\<rparr>])
                         (cm_features grouping)))))"
proof -
  have eq: "map (\<lambda>g. (hd (scored g))\<lparr>pep_rt := cf_rt g, pep_mz := cf_mz g\<rparr>)
              (filter (\<lambda>g. scored g \<noteq> []) gs) =
            concat (map (\<lambda>g. case scored g of
                                [] \<Rightarrow> []
                              | pep_id # _ \<Rightarrow> [pep_id\<lparr>pep_rt := cf_rt g, pep_mz := cf_mz g\<rparr>]) gs)"
    for gs
    by (induction gs) (auto split: list.splits)
  note block = idXML_block_success[OF assms(9-12), of out_file]
  show ?thesis
    unfolding main_unfold[OF assms(1-7)]
    using assms(8) by (simp add: andThen_def block pure_def eq)
qed

theorem C9_witness:
  "fst (TOPPConsensusID_main example_env flat_param flat_world) = Return EXECUTION_OK \<and>
   (\<exists>prot_ids'. files (snd (TOPPConsensusID_main example_env flat_param flat_world)) ''out.idXML'' =
      Some (IdXMLDoc prot_ids' ([pepA] @ [] @ [pepB])))"
  using C9_empty_group_is_dropped [where param = flat_param
      and in_file = "''in.idXML''" and out_file = "''out.idXML''"
      and rt_delta = "Val (1 / 10)" and mz_delta = "Val (1 / 10)" and algorithm = "''best''"
      and considered_hits = 10 and consensus = Best and ?algo_param0.0 = "[]"
      and env = example_env and w = flat_world and prot_ids = "[run1, run2]"
      and pep_ids = "[pepA, pep_no_hits, pepB]" and maps = flat_maps
      and grouping = flat_grouping
      and scored = "\<lambda>g. filter (\<lambda>p. hits p \<noteq> []) (cf_peptide_ids g)"]
  by (simp add: option_eval example_eval flat_eval)

subsection \<open>Invalid configuration\<close>




subsection \<open>How the linker is called\<close>

text \<open>
  Claim C7. Every call of the linker that a run of \<^verbatim>\<open>main_\<close> makes carries
  \<^verbatim>\<open>ignore_charge = true\<close>, \<^verbatim>\<open>distance_MZ:unit = Da\<close>,
  \<^verbatim>\<open>distance_RT:max_difference\<close> equal to the option \<^verbatim>\<open>rt_delta\<close> and
  \<^verbatim>\<open>distance_MZ:max_difference\<close> equal to the option \<^verbatim>\<open>mz_delta\<close>, whatever
  the linker's defaults are.
\<close>

theorem C7_linker_invocation_parameters:
  assumes "getDoubleOption registerOptionsAndFlags param ''rt_delta'' = Ok rt_delta"
    and "getDoubleOption registerOptionsAndFlags param ''mz_delta'' = Ok mz_delta"
    and "LinkerGroup ps maps \<in> set (trace (snd (TOPPConsensusID_main env param w)))"
    and "LinkerGroup ps maps \<notin> set (trace w)"
  shows "getValue ps ''ignore_charge'' = Some (StringValue ''true'') \<and>
         getValue ps ''distance_MZ:unit'' = Some (StringValue ''Da'') \<and>
         getValue ps ''distance_RT:max_difference'' = Some (DoubleValue rt_delta) \<and>
         getValue ps ''distance_MZ:max_difference'' = Some (DoubleValue mz_delta)"
proof -
  from extends_main[OF assms(1,2), of env w] obtain evs where
    evs: "trace (snd (TOPPConsensusID_main env param w)) = trace w @ evs"
      "list_all (linker_called_with (linker_params env rt_delta mz_delta)) evs"
    by (auto simp: extends_def)
  from assms(3,4) evs(1) have "LinkerGroup ps maps \<in> set evs" by simp
  with evs(2) have "ps = linker_params env rt_delta mz_delta"
    by (auto simp: list_all_iff)
  then show ?thesis by (simp add: linker_params_values)
qed

theorem C7_witness:
  "LinkerGroup (linker_params example_env (Val (1 / 10)) (Val (1 / 10))) flat_maps
     \<in> set (trace (snd (TOPPConsensusID_main example_env flat_param flat_world))) \<and>
   getValue (linker_params example_env (Val (1 / 10)) (Val (1 / 10))) ''ignore_charge'' =
     Some (StringValue ''true'') \<and>
   getValue (linker_params example_env (Val (1 / 10)) (Val (1 / 10))) ''distance_MZ:unit'' =
     Some (StringValue ''Da'') \<and>
   getValue (linker_params example_env (Val (1 / 10)) (Val (1 / 10))) ''distance_RT:max_difference'' =
     Some (DoubleValue (Val (1 / 10))) \<and>
   getValue (linker_params example_env (Val (1 / 10)) (Val (1 / 10))) ''distance_MZ:max_difference'' =
     Some (DoubleValue (Val (1 / 10)))"
proof -
  have t: "LinkerGroup (linker_params example_env (Val (1 / 10)) (Val (1 / 10))) flat_maps
     \<in> set (trace (snd (TOPPConsensusID_main example_env flat_param flat_world)))"
    by (simp add: option_eval example_eval flat_eval TOPPConsensusID_main_def
      andThen_def pure_def idXML_block_def IdXMLFile_load_def group_def setParameters_def
      apply_consensus_def emit_def setProteinIdentifications_def store_def)
  have e: "LinkerGroup (linker_params example_env (Val (1 / 10)) (Val (1 / 10))) flat_maps
     \<notin> set (trace flat_world)"
    by (simp add: flat_world_def)
  have r: "getDoubleOption registerOptionsAndFlags flat_param ''rt_delta'' = Ok (Val (1 / 10))"
    by (simp add: option_eval flat_param_def)
  have m: "getDoubleOption registerOptionsAndFlags flat_param ''mz_delta'' = Ok (Val (1 / 10))"
    by (simp add: option_eval flat_param_def)
  show ?thesis
    using t C7_linker_invocation_parameters[OF r m t e] by simp
qed

subsection \<open>The run metadata of the output\<close>

text \<open>
  Claim C5. When \<^verbatim>\<open>main_\<close> returns \<^verbatim>\<open>EXECUTION_OK\<close> on an input of one of the
  three types, the document written to the output file carries exactly one run record: a
  default-constructed one with search engine \<^verbatim>\<open>OpenMS/ConsensusID\<close>, the version of
  the build and the time of the clock. The clock is read once in the run, right before the
  output is stored; the run records of the input are gone.
\<close>

theorem C5_one_fresh_run_record:
  assumes "TOPPConsensusID_main env param w = (Return EXECUTION_OK, w')"
    and "getStringOption registerOptionsAndFlags param ''in'' = Ok in_file"
    and "getStringOption registerOptionsAndFlags param ''out'' = Ok out_file"
    and "getType env (files w) in_file = IDXML \<or> getType env (files w) in_file = FEATUREXML \<or>
         getType env (files w) in_file = CONSENSUSXML"
  shows "\<exists>doc evs. files w' out_file = Some doc \<and>
           doc_protein_ids doc =
             [\<lparr>prot_identifier = [], search_engine = ''OpenMS/ConsensusID'',
               search_engine_version = getVersion env, date_time = now w\<rparr>] \<and>
           trace w' = trace w @ evs @ [DateTimeNow, Store out_file doc] \<and>
           DateTimeNow \<notin> set evs"
proof (cases rule: main_getter_cases[of param])
  case (throw e)
  then show ?thesis using assms(1) by simp
next
  case (ok in_file' out_file' rt_delta mz_delta algorithm considered_hits)
  obtain consensus algo_param0 where
    sel: "select_algorithm param algorithm = (consensus, algo_param0)"
    by (cases "select_algorithm param algorithm")
  have io: "in_file' = in_file" "out_file' = out_file"
    using ok(1,2) assms(2,3) by simp_all
  note unfold = main_unfold[OF ok sel, of env w, unfolded io]
  from assms(4) consider
      (a) "getType env (files w) in_file = IDXML"
    | (b) "getType env (files w) in_file = FEATUREXML"
    | (c) "getType env (files w) in_file = CONSENSUSXML"
    by blast
  then show ?thesis
  proof cases
    case a
    with assms(1) unfold have
      "andThen (idXML_block env consensus
          (setValue ''considered_hits'' (IntValue considered_hits) algo_param0)
          in_file out_file rt_delta mz_delta) (\<lambda>_. pure (Return EXECUTION_OK)) w
       = (Return EXECUTION_OK :: unit Outcome, w')"
      by (simp add: andThen_pure_Ok_fun)
    from block_then_return[OF this] show ?thesis
      by (auto dest: idXML_block_Return idXML_block_Ok)
  next
    case b
    with assms(1) unfold have
      "andThen (featureXML_block env consensus
          (setValue ''considered_hits'' (IntValue considered_hits) algo_param0)
          in_file out_file) (\<lambda>_. pure (Return EXECUTION_OK)) w
       = (Return EXECUTION_OK :: unit Outcome, w')"
      by (simp add: andThen_pure_Ok_fun)
    from block_then_return[OF this] show ?thesis
      by (auto simp: featureXML_block_no_Return dest: featureXML_block_Ok)
  next
    case c
    with assms(1) unfold have
      "andThen (consensusXML_block env consensus
          (setValue ''considered_hits'' (IntValue considered_hits) algo_param0)
          in_file out_file) (\<lambda>_. pure (Return EXECUTION_OK)) w
       = (Return EXECUTION_OK :: unit Outcome, w')"
      by (simp add: andThen_pure_Ok_fun)
    from block_then_return[OF this] show ?thesis
      by (auto simp: consensusXML_block_no_Return dest: consensusXML_block_Ok)
  qed
qed


theorem C5_witness:
  "\<exists>doc evs.
     files (snd (TOPPConsensusID_main example_env flat_param flat_world)) ''out.idXML'' = Some doc \<and>
     doc_protein_ids doc =
       [\<lparr>prot_identifier = [], search_engine = ''OpenMS/ConsensusID'',
         search_engine_version = ''2.0.0'', date_time = At 1000\<rparr>] \<and>
     trace (snd (TOPPConsensusID_main example_env flat_param flat_world)) =
       evs @ [DateTimeNow, Store ''out.idXML'' doc] \<and>
     DateTimeNow \<notin> set evs"
proof -
  have r: "fst (TOPPConsensusID_main example_env flat_param flat_world) = Return EXECUTION_OK"
    by (simp add: option_eval example_eval flat_eval TOPPConsensusID_main_def
      andThen_def pure_def idXML_block_def IdXMLFile_load_def group_def setParameters_def
      apply_consensus_def emit_def setProteinIdentifications_def store_def)
  have m: "TOPPConsensusID_main example_env flat_param flat_world =
      (Return EXECUTION_OK, snd (TOPPConsensusID_main example_env flat_param flat_world))"
    using r by (simp add: prod_eq_iff)
  have i: "getStringOption registerOptionsAndFlags flat_param ''in'' = Ok ''in.idXML''"
    by (simp add: option_eval flat_param_def)
  have out: "getStringOption registerOptionsAndFlags flat_param ''out'' = Ok ''out.idXML''"
    by (simp add: option_eval flat_param_def)
  have t: "getType example_env (files flat_world) ''in.idXML'' = IDXML \<or>
           getType example_env (files flat_world) ''in.idXML'' = FEATUREXML \<or>
           getType example_env (files flat_world) ''in.idXML'' = CONSENSUSXML"
    by (simp add: example_eval)
  show ?thesis
    using C5_one_fresh_run_record[OF m i out t]
    by (simp add: example_env_def flat_world_def)
qed

subsection \<open>Determinism\<close>

text \<open>
  Claim C6, as amended. For collaborators that are functions of their arguments, two runs
  of \<^verbatim>\<open>main_\<close> on the same files with the same options end with the same outcome,
  and the worlds they leave are equal once the timestamps of the run records are blanked:
  the time of the run is the only thing by which the outputs can differ. They do differ
  by it: \<^verbatim>\<open>setProteinIdentifications_\<close> stamps the output with \<^verbatim>\<open>DateTime::now()\<close>,
  so the same input processed at two times gives two different output documents, as the
  counterexample shows.
\<close>

theorem C6_same_output_up_to_timestamp:
  "fst (TOPPConsensusID_main env param (w\<lparr>now := t1\<rparr>)) =
   fst (TOPPConsensusID_main env param (w\<lparr>now := t2\<rparr>)) \<and>
   forget_time (snd (TOPPConsensusID_main env param (w\<lparr>now := t1\<rparr>))) =
   forget_time (snd (TOPPConsensusID_main env param (w\<lparr>now := t2\<rparr>)))"
proof (cases rule: main_getter_cases[of param])
  case (throw e)
  then show ?thesis by simp
next
  case (ok in_file out_file rt_delta mz_delta algorithm considered_hits)
  obtain consensus algo_param0 where
    sel: "select_algorithm param algorithm = (consensus, algo_param0)"
    by (cases "select_algorithm param algorithm")
  note unfold = main_unfold[OF ok sel, of env]
  let ?ap = "setValue ''considered_hits'' (IntValue considered_hits) algo_param0"
  consider
      (a) "getType env (files w) in_file = IDXML"
    | (b) "getType env (files w) in_file = FEATUREXML"
    | (c) "getType env (files w) in_file = CONSENSUSXML"
    | (d) "getType env (files w) in_file \<noteq> IDXML" "getType env (files w) in_file \<noteq> FEATUREXML"
          "getType env (files w) in_file \<noteq> CONSENSUSXML"
    by blast
  then show ?thesis
  proof cases
    case a
    have "same_up_to_time (andThen (idXML_block env consensus ?ap in_file out_file rt_delta mz_delta)
        (\<lambda>_. pure (Return EXECUTION_OK :: unit Outcome)))"
      by (rule same_up_to_time_then_return[OF same_idXML_block])
    from same_up_to_timeD[OF this, where w = w and ?t1.0 = t1 and ?t2.0 = t2] show ?thesis
      using a by (simp add: unfold andThen_pure_Ok_fun)
  next
    case b
    have "same_up_to_time (andThen (featureXML_block env consensus ?ap in_file out_file)
        (\<lambda>_. pure (Return EXECUTION_OK :: unit Outcome)))"
      by (rule same_up_to_time_then_return[OF same_featureXML_block])
    from same_up_to_timeD[OF this, where w = w and ?t1.0 = t1 and ?t2.0 = t2] show ?thesis
      using b by (simp add: unfold andThen_pure_Ok_fun)
  next
    case c
    have "same_up_to_time (andThen (consensusXML_block env consensus ?ap in_file out_file)
        (\<lambda>_. pure (Return EXECUTION_OK :: unit Outcome)))"
      by (rule same_up_to_time_then_return[OF same_consensusXML_block])
    from same_up_to_timeD[OF this, where w = w and ?t1.0 = t1 and ?t2.0 = t2] show ?thesis
      using c by (simp add: unfold andThen_pure_Ok_fun)
  next
    case d
    then show ?thesis by (simp add: unfold pure_def)
  qed
qed

theorem C6_counterexample:
  "files (flat_world\<lparr>now := At 1\<rparr>) = files (flat_world\<lparr>now := At 2\<rparr>) \<and>
   files (snd (TOPPConsensusID_main example_env flat_param (flat_world\<lparr>now := At 1\<rparr>))) ''out.idXML'' \<noteq>
   files (snd (TOPPConsensusID_main example_env flat_param (flat_world\<lparr>now := At 2\<rparr>))) ''out.idXML''"
  by (simp add: option_eval example_eval flat_eval TOPPConsensusID_main_def
      andThen_def pure_def idXML_block_def IdXMLFile_load_def group_def setParameters_def
      apply_consensus_def emit_def setProteinIdentifications_def store_def
      new_ProteinIdentification_def)

subsection \<open>Missing coordinates, by input type\<close>

text \<open>
  Claim C2, as amended. On idXML input a peptide identification that has RT but no m/z, or
  m/z but no RT, ends the run with \<^verbatim>\<open>INCOMPATIBLE_INPUT_DATA\<close>. On any other input
  type the run never ends with \<^verbatim>\<open>INCOMPATIBLE_INPUT_DATA\<close>. On featureXML and on
  consensusXML input, once the file is loaded, the scorer is configured and applied to the
  identifications of the first container, and when the scorer returns for every container
  the run returns \<^verbatim>\<open>EXECUTION_OK\<close> and stores every container with its scored
  identifications. None of this asks anything of the RT or m/z of an identification: the
  two blocks do no grouping and make no coordinate check.
\<close>

theorem C2_missing_coordinate_by_shape:
  assumes "getStringOption registerOptionsAndFlags param ''in'' = Ok in_file"
    and "getStringOption registerOptionsAndFlags param ''out'' = Ok out_file"
    and "getDoubleOption registerOptionsAndFlags param ''rt_delta'' = Ok rt_delta"
    and "getDoubleOption registerOptionsAndFlags param ''mz_delta'' = Ok mz_delta"
    and "getStringOption registerOptionsAndFlags param ''algorithm'' = Ok algorithm"
    and "getIntOption registerOptionsAndFlags param ''considered_hits'' = Ok considered_hits"
    and "select_algorithm param algorithm = (consensus, algo_param0)"
  shows
    "(getType env (files w) in_file = IDXML \<and>
      files w in_file = Some (IdXMLDoc prot_ids pep_ids) \<and> prot_ids \<noteq> [] \<and>
      (\<exists>p \<in> set pep_ids. hasRT p \<noteq> hasMZ p) \<longrightarrow>
        fst (TOPPConsensusID_main env param w) = Return INCOMPATIBLE_INPUT_DATA) \<and>
     (getType env (files w) in_file \<noteq> IDXML \<longrightarrow>
        fst (TOPPConsensusID_main env param w) \<noteq> Return INCOMPATIBLE_INPUT_DATA) \<and>
     (getType env (files w) in_file = FEATUREXML \<and>
      files w in_file = Some (FeatureXMLDoc fmap) \<longrightarrow>
        (\<exists>evs. trace (snd (TOPPConsensusID_main env param w)) =
           trace w @
           (ConsensusSetParameters consensus
              (setValue ''ranks:number_of_runs'' (SizeValue (length (fm_protein_ids fmap)))
                 (setValue ''considered_hits'' (IntValue considered_hits) algo_param0)) #
            map ConsensusApply (map f_peptide_ids (take 1 (fm_features fmap)))) @ evs) \<and>
        ((\<forall>f \<in> set (fm_features fmap).
            consensus_apply env consensus
              (setValue ''ranks:number_of_runs'' (SizeValue (length (fm_protein_ids fmap)))
                 (setValue ''considered_hits'' (IntValue considered_hits) algo_param0))
              (f_peptide_ids f) = Inr (scored_f f)) \<longrightarrow>
           fst (TOPPConsensusID_main env param w) = Return EXECUTION_OK \<and>
           files (snd (TOPPConsensusID_main env param w)) out_file =
             Some (FeatureXMLDoc
               (fmap\<lparr>fm_features := map (\<lambda>f. f\<lparr>f_peptide_ids := scored_f f\<rparr>) (fm_features fmap),
                  fm_protein_ids :=
                    [\<lparr>prot_identifier = [], search_engine = ''OpenMS/ConsensusID'',
                      search_engine_version = getVersion env, date_time = now w\<rparr>]\<rparr>)))) \<and>
     (getType env (files w) in_file = CONSENSUSXML \<and>
      files w in_file = Some (ConsensusXMLDoc cmap) \<longrightarrow>
        (\<exists>evs. trace (snd (TOPPConsensusID_main env param w)) =
           trace w @
           (ConsensusSetParameters consensus
              (setValue ''ranks:number_of_runs'' (SizeValue (length (cm_protein_ids cmap)))
                 (setValue ''considered_hits'' (IntValue considered_hits) algo_param0)) #
            map ConsensusApply (map cf_peptide_ids (take 1 (cm_features cmap)))) @ evs) \<and>
        ((\<forall>f \<in> set (cm_features cmap).
            consensus_apply env consensus
              (setValue ''ranks:number_of_runs'' (SizeValue (length (cm_protein_ids cmap)))
                 (setValue ''considered_hits'' (IntValue considered_hits) algo_param0))
              (cf_peptide_ids f) = Inr (scored_c f)) \<longrightarrow>
           fst (TOPPConsensusID_main env param w) = Return EXECUTION_OK \<and>
           files (snd (TOPPConsensusID_main env param w)) out_file =
             Some (ConsensusXMLDoc
               (cmap\<lparr>cm_features := map (\<lambda>f. f\<lparr>cf_peptide_ids := scored_c f\<rparr>) (cm_features cmap),
                  cm_protein_ids :=
                    [\<lparr>prot_identifier = [], search_engine = ''OpenMS/ConsensusID'',
                      search_engine_version = getVersion env, date_time = now w\<rparr>]\<rparr>))))"
proof -
  let ?ap = "setValue ''considered_hits'' (IntValue considered_hits) algo_param0"
  note unfold = main_unfold[OF assms, of env w]
  have flat: "fst (TOPPConsensusID_main env param w) = Return INCOMPATIBLE_INPUT_DATA"
    if a: "getType env (files w) in_file = IDXML \<and>
      files w in_file = Some (IdXMLDoc prot_ids pep_ids) \<and> prot_ids \<noteq> [] \<and>
      (\<exists>p \<in> set pep_ids. hasRT p \<noteq> hasMZ p)"
  proof -
    from a have bad: "\<exists>p \<in> set pep_ids. \<not> hasRT p \<or> \<not> hasMZ p" by auto
    from a have t: "getType env (files w) in_file = IDXML"
      and f: "files w in_file = Some (IdXMLDoc prot_ids pep_ids)" and n: "prot_ids \<noteq> []"
      by simp_all
    show ?thesis
      by (simp add: main_missing_coordinate[OF assms(1-6) t f n bad])
  qed
  have never: "fst (TOPPConsensusID_main env param w) \<noteq> Return INCOMPATIBLE_INPUT_DATA"
    if t: "getType env (files w) in_file \<noteq> IDXML"
  proof
    assume "fst (TOPPConsensusID_main env param w) = Return INCOMPATIBLE_INPUT_DATA"
    then have "TOPPConsensusID_main env param w =
        (Return INCOMPATIBLE_INPUT_DATA, snd (TOPPConsensusID_main env param w))"
      by (simp add: prod_eq_iff)
    from main_not_flat_Return[OF assms(1) t this] show False by simp
  qed
  have f_main: "TOPPConsensusID_main env param w =
      andThen (featureXML_block env consensus ?ap in_file out_file)
        (\<lambda>_. pure (Return EXECUTION_OK)) w"
    if "getType env (files w) in_file = FEATUREXML"
    using that by (simp add: unfold andThen_pure_Ok_fun)
  have c_main: "TOPPConsensusID_main env param w =
      andThen (consensusXML_block env consensus ?ap in_file out_file)
        (\<lambda>_. pure (Return EXECUTION_OK)) w"
    if "getType env (files w) in_file = CONSENSUSXML"
    using that by (simp add: unfold andThen_pure_Ok_fun)
  have f_scores: "\<exists>evs. trace (snd (TOPPConsensusID_main env param w)) =
           trace w @
           (ConsensusSetParameters consensus
              (setValue ''ranks:number_of_runs'' (SizeValue (length (fm_protein_ids fmap))) ?ap) #
            map ConsensusApply (map f_peptide_ids (take 1 (fm_features fmap)))) @ evs"
    if "getType env (files w) in_file = FEATUREXML" "files w in_file = Some (FeatureXMLDoc fmap)"
    using featureXML_block_scores[OF that(2), of env consensus ?ap out_file]
    by (simp add: f_main[OF that(1)] snd_andThen_pure)
  have c_scores: "\<exists>evs. trace (snd (TOPPConsensusID_main env param w)) =
           trace w @
           (ConsensusSetParameters consensus
              (setValue ''ranks:number_of_runs'' (SizeValue (length (cm_protein_ids cmap))) ?ap) #
            map ConsensusApply (map cf_peptide_ids (take 1 (cm_features cmap)))) @ evs"
    if "getType env (files w) in_file = CONSENSUSXML" "files w in_file = Some (ConsensusXMLDoc cmap)"
    using consensusXML_block_scores[OF that(2), of env consensus ?ap out_file]
    by (simp add: c_main[OF that(1)] snd_andThen_pure)
  have f_ok: "fst (TOPPConsensusID_main env param w) = Return EXECUTION_OK \<and>
           files (snd (TOPPConsensusID_main env param w)) out_file =
             Some (FeatureXMLDoc
               (fmap\<lparr>fm_features := map (\<lambda>f. f\<lparr>f_peptide_ids := scored_f f\<rparr>) (fm_features fmap),
                  fm_protein_ids :=
                    [\<lparr>prot_identifier = [], search_engine = ''OpenMS/ConsensusID'',
                      search_engine_version = getVersion env, date_time = now w\<rparr>]\<rparr>))"
    if "getType env (files w) in_file = FEATUREXML" "files w in_file = Some (FeatureXMLDoc fmap)"
      "\<forall>f \<in> set (fm_features fmap).
            consensus_apply env consensus
              (setValue ''ranks:number_of_runs'' (SizeValue (length (fm_protein_ids fmap))) ?ap)
              (f_peptide_ids f) = Inr (scored_f f)"
    by (simp add: f_main[OF that(1)] andThen_def pure_def
        featureXML_block_success[OF that(2,3), of out_file])
  have c_ok: "fst (TOPPConsensusID_main env param w) = Return EXECUTION_OK \<and>
           files (snd (TOPPConsensusID_main env param w)) out_file =
             Some (ConsensusXMLDoc
               (cmap\<lparr>cm_features := map (\<lambda>f. f\<lparr>cf_peptide_ids := scored_c f\<rparr>) (cm_features cmap),
                  cm_protein_ids :=
                    [\<lparr>prot_identifier = [], search_engine = ''OpenMS/ConsensusID'',
                      search_engine_version = getVersion env, date_time = now w\<rparr>]\<rparr>))"
    if "getType env (files w) in_file = CONSENSUSXML" "files w in_file = Some (ConsensusXMLDoc cmap)"
      "\<forall>f \<in> set (cm_features cmap).
            consensus_apply env consensus
              (setValue ''ranks:number_of_runs'' (SizeValue (length (cm_protein_ids cmap))) ?ap)
              (cf_peptide_ids f) = Inr (scored_c f)"
    by (simp add: c_main[OF that(1)] andThen_def pure_def
        consensusXML_block_success[OF that(2,3), of out_file])
  show ?thesis
    using flat never f_scores f_ok c_scores c_ok by blast
qed


theorem C2_witness:
  "(\<exists>p \<in> set [pepA, pep_no_mz, pepB]. hasRT p \<noteq> hasMZ p) \<and>
   fst (TOPPConsensusID_main example_env flat_param flat_world_no_mz) = Return INCOMPATIBLE_INPUT_DATA \<and>
   getType example_env (files feature_world) ''in.featureXML'' \<noteq> IDXML \<and>
   fst (TOPPConsensusID_main example_env feature_param feature_world) \<noteq> Return INCOMPATIBLE_INPUT_DATA \<and>
   hasRT pep_no_mz \<and> \<not> hasMZ pep_no_mz \<and>
   (\<exists>evs. trace (snd (TOPPConsensusID_main example_env feature_param feature_world)) =
      [ConsensusSetParameters Ranks
         [(''considered_hits'', IntValue 10), (''ranks:number_of_runs'', SizeValue 2)],
       ConsensusApply [pep_no_mz, pepB]] @ evs) \<and>
   fst (TOPPConsensusID_main example_env feature_param feature_world) = Return EXECUTION_OK \<and>
   files (snd (TOPPConsensusID_main example_env feature_param feature_world)) ''out.featureXML'' =
     Some (FeatureXMLDoc
       \<lparr>fm_features =
          [\<lparr>f_rt = Val 100, f_mz = Val 500, f_charge = 2, f_peptide_ids = [pep_no_mz, pepB]\<rparr>],
        fm_protein_ids =
          [\<lparr>prot_identifier = [], search_engine = ''OpenMS/ConsensusID'',
            search_engine_version = ''2.0.0'', date_time = At 1000\<rparr>]\<rparr>) \<and>
   hasMZ pep_no_rt \<and> \<not> hasRT pep_no_rt \<and>
   (\<exists>evs. trace (snd (TOPPConsensusID_main example_env consensus_param consensus_world_no_rt)) =
      [ConsensusSetParameters Ranks
         [(''considered_hits'', IntValue 10), (''ranks:number_of_runs'', SizeValue 2)],
       ConsensusApply [pep_no_rt, pepB]] @ evs) \<and>
   fst (TOPPConsensusID_main example_env consensus_param consensus_world_no_rt) = Return EXECUTION_OK \<and>
   files (snd (TOPPConsensusID_main example_env consensus_param consensus_world_no_rt))
       ''out.consensusXML'' =
     Some (ConsensusXMLDoc
       \<lparr>cm_features =
          [\<lparr>cf_rt = Val 100, cf_mz = Val 500, cf_peptide_ids = [pep_no_rt, pepB]\<rparr>],
        cm_protein_ids =
          [\<lparr>prot_identifier = [], search_engine = ''OpenMS/ConsensusID'',
            search_engine_version = ''2.0.0'', date_time = At 1000\<rparr>]\<rparr>)"
  using
    C2_missing_coordinate_by_shape [where param = flat_param
      and in_file = "''in.idXML''" and out_file = "''out.idXML''"
      and rt_delta = "Val (1 / 10)" and mz_delta = "Val (1 / 10)" and algorithm = "''best''"
      and considered_hits = 10 and consensus = Best and ?algo_param0.0 = "[]"
      and env = example_env and w = flat_world_no_mz
      and prot_ids = "[run1, run2]" and pep_ids = "[pepA, pep_no_mz, pepB]"]
    C2_missing_coordinate_by_shape [where param = feature_param
      and in_file = "''in.featureXML''" and out_file = "''out.featureXML''"
      and rt_delta = "Val (1 / 10)" and mz_delta = "Val (1 / 10)" and algorithm = "''ranks''"
      and considered_hits = 10 and consensus = Ranks and ?algo_param0.0 = "[]"
      and env = example_env and w = feature_world
      and fmap = "\<lparr>fm_features =
          [\<lparr>f_rt = Val 100, f_mz = Val 500, f_charge = 2, f_peptide_ids = [pep_no_mz, pepB]\<rparr>],
        fm_protein_ids = [run1, run2]\<rparr>"
      and scored_f = "\<lambda>f. filter (\<lambda>p. hits p \<noteq> []) (f_peptide_ids f)"]
    C2_missing_coordinate_by_shape [where param = consensus_param
      and in_file = "''in.consensusXML''" and out_file = "''out.consensusXML''"
      and rt_delta = "Val (1 / 10)" and mz_delta = "Val (1 / 10)" and algorithm = "''ranks''"
      and considered_hits = 10 and consensus = Ranks and ?algo_param0.0 = "[]"
      and env = example_env and w = consensus_world_no_rt
      and cmap = "\<lparr>cm_features =
          [\<lparr>cf_rt = Val 100, cf_mz = Val 500, cf_peptide_ids = [pep_no_rt, pepB]\<rparr>],
        cm_protein_ids = [run1, run2]\<rparr>"
      and scored_c = "\<lambda>f. filter (\<lambda>p. hits p \<noteq> []) (cf_peptide_ids f)"]
  by (simp add: option_eval example_eval pregrouped_eval no_rt_eval select_algorithm_def
      hasRT_def hasMZ_def numeral_2_eq_2)

theorem C2_counterexample:
  "hasRT pep_no_mz \<and> \<not> hasMZ pep_no_mz \<and>
   files feature_world ''in.featureXML'' =
     Some (FeatureXMLDoc
       \<lparr>fm_features =
          [\<lparr>f_rt = Val 100, f_mz = Val 500, f_charge = 2, f_peptide_ids = [pep_no_mz, pepB]\<rparr>],
        fm_protein_ids = [run1, run2]\<rparr>) \<and>
   fst (TOPPConsensusID_main example_env feature_param feature_world) = Return EXECUTION_OK \<and>
   fst (TOPPConsensusID_main example_env consensus_param consensus_world) = Return EXECUTION_OK \<and>
   hasMZ pep_no_rt \<and> \<not> hasRT pep_no_rt \<and>
   files feature_world_no_rt ''in.featureXML'' =
     Some (FeatureXMLDoc
       \<lparr>fm_features =
          [\<lparr>f_rt = Val 100, f_mz = Val 500, f_charge = 2, f_peptide_ids = [pep_no_rt, pepB]\<rparr>],
        fm_protein_ids = [run1, run2]\<rparr>) \<and>
   fst (TOPPConsensusID_main example_env feature_param feature_world_no_rt) = Return EXECUTION_OK \<and>
   files consensus_world_no_rt ''in.consensusXML'' =
     Some (ConsensusXMLDoc
       \<lparr>cm_features =
          [\<lparr>cf_rt = Val 100, cf_mz = Val 500, cf_peptide_ids = [pep_no_rt, pepB]\<rparr>],
        cm_protein_ids = [run1, run2]\<rparr>) \<and>
   fst (TOPPConsensusID_main example_env consensus_param consensus_world_no_rt) = Return EXECUTION_OK"
  by (simp add: option_eval example_eval pregrouped_eval no_rt_eval run_eval select_algorithm_def
      hasRT_def hasMZ_def)

subsection \<open>The number of runs given to the scorer\<close>

text \<open>
  Claim C3, evaluated on the example inputs. On featureXML and consensusXML input the
  parameters the scorer is configured with hold the number of runs under the name
  \<^verbatim>\<open>ranks:number_of_runs\<close> and have no entry named \<^verbatim>\<open>number_of_runs\<close>; on idXML
  input, with the same options, the name is \<^verbatim>\<open>number_of_runs\<close>.
\<close>

theorem C3_pregrouped_number_of_runs_not_set:
  "trace (snd (TOPPConsensusID_main example_env feature_param feature_world)) =
     [ConsensusSetParameters Ranks
        [(''considered_hits'', IntValue 10), (''ranks:number_of_runs'', SizeValue 2)],
      ConsensusApply [pep_no_mz, pepB],
      DateTimeNow,
      Store ''out.featureXML''
        (FeatureXMLDoc
          \<lparr>fm_features =
             [\<lparr>f_rt = Val 100, f_mz = Val 500, f_charge = 2, f_peptide_ids = [pep_no_mz, pepB]\<rparr>],
           fm_protein_ids =
             [\<lparr>prot_identifier = [], search_engine = ''OpenMS/ConsensusID'',
               search_engine_version = ''2.0.0'', date_time = At 1000\<rparr>]\<rparr>)] \<and>
   getValue [(''considered_hits'', IntValue 10), (''ranks:number_of_runs'', SizeValue 2)]
     ''number_of_runs'' = None \<and>
   hd (trace (snd (TOPPConsensusID_main example_env consensus_param consensus_world))) =
     ConsensusSetParameters Ranks
        [(''considered_hits'', IntValue 10), (''ranks:number_of_runs'', SizeValue 2)] \<and>
   hd (tl (trace (snd (TOPPConsensusID_main example_env
      (setValue ''algorithm'' (StringValue ''ranks'') flat_param) flat_world)))) =
     ConsensusSetParameters Ranks
        [(''considered_hits'', IntValue 10), (''number_of_runs'', SizeValue 2)]"
  by (simp add: option_eval example_eval pregrouped_eval flat_eval run_eval)

end
